theory Spec2Isabelle
  imports Complex_Main
begin

text \<open>
  A model of the trajectory simulator: the four derivations of a complete motion state
  (\<open>utils/trajectory.ts\<close>), the metrics computed from it, the store with its
  synchronisation and batch update (\<open>state/traj.ts\<close>), and the import of a document.
  The definitions follow the source function by function and keep its names; the facts
  proved about them come after all definitions.
\<close>

section \<open>JavaScript numbers and arrays\<close>

text \<open>
  The buffers of the trajectory simulator are JavaScript arrays of numbers. The model reads
  a number as a real, and keeps the two values that the code can meet besides a number:
  \<open>NaN\<close>, and \<open>undefined\<close>, which is what reading an array outside its range returns.

  What a double does and a real does not is outside the model: a double rounds, carries a
  signed zero, and overflows to an infinity (from which \<open>Infinity - Infinity\<close> gives
  \<open>NaN\<close>). The arithmetic of the model is exact and never leaves the numbers, so a fact
  proved here stands for the code as an identity of real arithmetic; that a value of the
  code is finite, or that a loop whose end depends on the size of a double ends, is not
  among the facts proved.
\<close>

datatype jsnum = Num real | NaN | Undefined

text \<open>\<open>ToNumber\<close>: \<open>undefined\<close> becomes \<open>NaN\<close>, which has no real value.\<close>

fun num_of :: "jsnum \<Rightarrow> real option" where
  "num_of (Num r) = Some r"
| "num_of NaN = None"
| "num_of Undefined = None"

fun is_number :: "jsnum \<Rightarrow> bool" where
  "is_number (Num r) = True"
| "is_number NaN = False"
| "is_number Undefined = False"

text \<open>
  A binary operation on two numbers is the real operation (the double result would be its
  rounding, or an infinity past the largest double); with \<open>NaN\<close> or \<open>undefined\<close> on a
  side the result is \<open>NaN\<close>.
\<close>

definition jbin :: "(real \<Rightarrow> real \<Rightarrow> real) \<Rightarrow> jsnum \<Rightarrow> jsnum \<Rightarrow> jsnum" where
  "jbin f a b = (case (num_of a, num_of b) of (Some x, Some y) \<Rightarrow> Num (f x y) | _ \<Rightarrow> NaN)"

definition jadd :: "jsnum \<Rightarrow> jsnum \<Rightarrow> jsnum" where
  "jadd = jbin (+)"

definition jsub :: "jsnum \<Rightarrow> jsnum \<Rightarrow> jsnum" where
  "jsub = jbin (-)"

definition jmul :: "jsnum \<Rightarrow> jsnum \<Rightarrow> jsnum" where
  "jmul = jbin (*)"

text \<open>
  Division: every divisor in the code is \<open>CONFIG.dt\<close> or a speed above \<open>0.1\<close>, so the
  quotient by zero (an infinity or \<open>NaN\<close> in JavaScript) is never taken; the model gives
  \<open>NaN\<close> there.
\<close>

definition jdiv :: "jsnum \<Rightarrow> jsnum \<Rightarrow> jsnum" where
  "jdiv a b = (case (num_of a, num_of b) of
       (Some x, Some y) \<Rightarrow> (if y = 0 then NaN else Num (x / y))
     | _ \<Rightarrow> NaN)"

text \<open>\<open>a > b\<close> and \<open>a < b\<close>: false as soon as one side is \<open>NaN\<close>.\<close>

definition jgt :: "jsnum \<Rightarrow> jsnum \<Rightarrow> bool" where
  "jgt a b = (case (num_of a, num_of b) of (Some x, Some y) \<Rightarrow> y < x | _ \<Rightarrow> False)"

definition jlt :: "jsnum \<Rightarrow> jsnum \<Rightarrow> bool" where
  "jlt a b = (case (num_of a, num_of b) of (Some x, Some y) \<Rightarrow> x < y | _ \<Rightarrow> False)"

text \<open>\<open>v || 0\<close>: the falsy values here are \<open>0\<close>, \<open>NaN\<close> and \<open>undefined\<close>.\<close>

fun truthy :: "jsnum \<Rightarrow> bool" where
  "truthy (Num r) = (r \<noteq> 0)"
| "truthy NaN = False"
| "truthy Undefined = False"

definition or0 :: "jsnum \<Rightarrow> jsnum" where
  "or0 v = (if truthy v then v else Num 0)"

text \<open>\<open>Math.sqrt\<close>, \<open>Math.tan\<close> and \<open>Math.atan2\<close> on these values.\<close>

definition jsqrt :: "jsnum \<Rightarrow> jsnum" where
  "jsqrt a = (case num_of a of Some x \<Rightarrow> (if x < 0 then NaN else Num (sqrt x)) | None \<Rightarrow> NaN)"

text \<open>
  The real tangent has no value at the odd multiples of \<open>pi / 2\<close>, where HOL's \<open>tan\<close> is
  \<open>0\<close> and the double-precision \<open>Math.tan\<close> is a large finite number. Nothing proved
  below depends on the value there.
\<close>

definition jtan :: "jsnum \<Rightarrow> jsnum" where
  "jtan a = (case num_of a of Some x \<Rightarrow> Num (tan x) | None \<Rightarrow> NaN)"

text \<open>
  The two-argument arctangent of \<open>Math.atan2 (y, x)\<close>, by quadrant, on reals. On doubles
  \<open>Math.atan2\<close> also returns \<open>-Math.PI\<close>: at \<open>y = -0\<close> with \<open>x < 0\<close>, and where a
  result just above it rounds to it. Of the range of this function the facts below use
  the closed interval from \<open>-pi\<close> to \<open>pi\<close> only, which holds of both.
\<close>

definition atan2 :: "real \<Rightarrow> real \<Rightarrow> real" where
  "atan2 y x =
     (if 0 < x then arctan (y / x)
      else if x < 0 then (if 0 \<le> y then arctan (y / x) + pi else arctan (y / x) - pi)
      else if 0 < y then pi / 2
      else if y < 0 then - (pi / 2)
      else 0)"

definition jatan2 :: "jsnum \<Rightarrow> jsnum \<Rightarrow> jsnum" where
  "jatan2 = jbin atan2"

text \<open>
  \<open>xs[i]\<close>: \<open>undefined\<close> outside the array, also at the index \<open>-1\<close> that the
  backward difference reads when the array has one element.
\<close>

definition rd :: "jsnum list \<Rightarrow> int \<Rightarrow> jsnum" where
  "rd xs i = (if 0 \<le> i \<and> i < int (length xs) then xs ! nat i else Undefined)"

text \<open>
  \<open>xs[i] = v\<close> for an array index \<open>i\<close>: past the end the array grows, and the
  elements in between are holes, which read as \<open>undefined\<close>.
\<close>

definition wr :: "jsnum list \<Rightarrow> nat \<Rightarrow> jsnum \<Rightarrow> jsnum list" where
  "wr xs i v =
     (if i < length xs then xs[i := v]
      else xs @ replicate (i - length xs) Undefined @ [v])"

section \<open>Types of the trajectory data (type/trajectory.ts)\<close>

definition CONFIG_timeSteps :: nat where
  "CONFIG_timeSteps = 33"

definition CONFIG_dt :: real where
  "CONFIG_dt = 1 / 10"

record InputData =
  px :: "jsnum list"
  py :: "jsnum list"
  oz :: "jsnum list"
  vx :: "jsnum list"
  vy :: "jsnum list"
  wz :: "jsnum list"

record OutputData =
  ax :: "jsnum list"
  ay :: "jsnum list"
  cz :: "jsnum list"
  l1 :: "jsnum list"

datatype Methods = position | velocity | integral | differential

datatype InputKey = K_px | K_py | K_oz | K_vx | K_vy | K_wz

datatype OutputKey = K_ax | K_ay | K_cz | K_l1

fun METHODS_inputs :: "Methods \<Rightarrow> InputKey list" where
  "METHODS_inputs position = [K_px, K_py]"
| "METHODS_inputs velocity = [K_vx, K_vy]"
| "METHODS_inputs integral = [K_vx, K_wz]"
| "METHODS_inputs differential = [K_px, K_oz]"

section \<open>The derivation engine (utils/trajectory.ts)\<close>

subsection \<open>Angle normalisation\<close>

text \<open>
  \<open>while (t > Math.PI) t -= 2 * Math.PI; while (t < -Math.PI) t += 2 * Math.PI;\<close>
  On a real number each loop ends, which is the termination proved here; on \<open>NaN\<close> both
  tests are false at once. On doubles a loop does not end when \<open>t\<close> is an infinity, or so
  large (from about \<open>1e17\<close>) that \<open>t - 2 * Math.PI\<close> rounds back to \<open>t\<close>: there the
  code does not return and these functions say nothing of it. Position and velocity mode
  pass a difference of two headings between \<open>-pi\<close> and \<open>pi\<close>, for which one round
  is enough; the theorem on the range of the orientation, which reads values of integral
  and differential mode, is stated for angles within a turn, for which two rounds are
  enough.
\<close>

function sub_loop :: "jsnum \<Rightarrow> jsnum" where
  "sub_loop t = (if jgt t (Num pi) then sub_loop (jsub t (Num (2 * pi))) else t)"
  by pat_completeness auto
termination
proof (relation "measure (\<lambda>t. case t of Num r \<Rightarrow> nat \<lceil>(r - pi) / (2 * pi)\<rceil> | _ \<Rightarrow> 0)")
  show "wf (measure (\<lambda>t. case t of Num r \<Rightarrow> nat \<lceil>(r - pi) / (2 * pi)\<rceil> | _ \<Rightarrow> 0))"
    by simp
next
  fix t :: jsnum
  assume gt: "jgt t (Num pi)"
  then obtain r where t: "t = Num r" and r: "pi < r"
    by (cases t) (auto simp: jgt_def)
  have eq: "(r - 2 * pi - pi) / (2 * pi) = (r - pi) / (2 * pi) - 1"
    by (simp add: field_simps)
  have pos: "0 < (r - pi) / (2 * pi)"
    using r by simp
  then have "0 < \<lceil>(r - pi) / (2 * pi)\<rceil>"
    by linarith
  then have "nat \<lceil>(r - pi) / (2 * pi) - 1\<rceil> < nat \<lceil>(r - pi) / (2 * pi)\<rceil>"
    by simp
  then show "(jsub t (Num (2 * pi)), t)
      \<in> measure (\<lambda>t. case t of Num r \<Rightarrow> nat \<lceil>(r - pi) / (2 * pi)\<rceil> | _ \<Rightarrow> 0)"
    using t eq by (simp add: jsub_def jbin_def)
qed

function add_loop :: "jsnum \<Rightarrow> jsnum" where
  "add_loop t = (if jlt t (Num (- pi)) then add_loop (jadd t (Num (2 * pi))) else t)"
  by pat_completeness auto
termination
proof (relation "measure (\<lambda>t. case t of Num r \<Rightarrow> nat \<lceil>(- pi - r) / (2 * pi)\<rceil> | _ \<Rightarrow> 0)")
  show "wf (measure (\<lambda>t. case t of Num r \<Rightarrow> nat \<lceil>(- pi - r) / (2 * pi)\<rceil> | _ \<Rightarrow> 0))"
    by simp
next
  fix t :: jsnum
  assume lt: "jlt t (Num (- pi))"
  then obtain r where t: "t = Num r" and r: "r < - pi"
    by (cases t) (auto simp: jlt_def)
  have eq: "(- pi - (r + 2 * pi)) / (2 * pi) = (- pi - r) / (2 * pi) - 1"
    by (simp add: field_simps)
  have pos: "0 < (- pi - r) / (2 * pi)"
    using r by simp
  then have "0 < \<lceil>(- pi - r) / (2 * pi)\<rceil>"
    by linarith
  then have "nat \<lceil>(- pi - r) / (2 * pi) - 1\<rceil> < nat \<lceil>(- pi - r) / (2 * pi)\<rceil>"
    by simp
  then show "(jadd t (Num (2 * pi)), t)
      \<in> measure (\<lambda>t. case t of Num r \<Rightarrow> nat \<lceil>(- pi - r) / (2 * pi)\<rceil> | _ \<Rightarrow> 0)"
    using t eq by (simp add: jadd_def jbin_def)
qed

definition normalize_angle :: "jsnum \<Rightarrow> jsnum" where
  "normalize_angle t = add_loop (sub_loop t)"

subsection \<open>Position mode: calculateFromPxPy\<close>

text \<open>
  Each loop of the engine is a fold of its body over the indices \<open>0, \<dots>, length - 1\<close>;
  the state of the fold is the tuple of the arrays (and running sums) the loop updates.
  Inside the loop \<open>i < length\<close>, so the test \<open>i < length - 1\<close> is written on integers.
\<close>

type_synonym arrays4 = "jsnum list \<times> jsnum list \<times> jsnum list \<times> jsnum list"

definition finite_difference :: "jsnum list \<Rightarrow> nat \<Rightarrow> nat \<Rightarrow> jsnum" where
  "finite_difference xs len i =
     (if int i < int len - 1
      then jdiv (jsub (rd xs (int i + 1)) (rd xs (int i))) (Num CONFIG_dt)
      else jdiv (jsub (rd xs (int i)) (rd xs (int i - 1))) (Num CONFIG_dt))"

definition yaw_rate :: "jsnum \<Rightarrow> jsnum \<Rightarrow> jsnum" where
  "yaw_rate cur prev = jdiv (normalize_angle (jsub cur prev)) (Num CONFIG_dt)"

definition calculateFromPxPy_body :: "InputData \<Rightarrow> nat \<Rightarrow> arrays4 \<Rightarrow> arrays4" where
  "calculateFromPxPy_body data i = (\<lambda>(vxs, vys, ozs, wzs).
     let len = length (px data);
         vxs' = wr vxs i (finite_difference (px data) len i);
         vys' = wr vys i (finite_difference (py data) len i);
         speed = jsqrt (jadd (jmul (rd vxs' (int i)) (rd vxs' (int i)))
                             (jmul (rd vys' (int i)) (rd vys' (int i))));
         ozs' = (if jgt speed (Num (1 / 100))
                 then wr ozs i (jatan2 (rd vys' (int i)) (rd vxs' (int i)))
                 else if 0 < i then wr ozs i (rd ozs (int i - 1))
                 else ozs);
         wzs' = (if 0 < i
                 then wr wzs i (yaw_rate (rd ozs' (int i)) (rd ozs' (int i - 1)))
                 else wzs)
     in (vxs', vys', ozs', wzs'))"

definition calculateFromPxPy :: "InputData \<Rightarrow> InputData" where
  "calculateFromPxPy data =
     (let len = length (px data);
          zeros = replicate len (Num 0);
          (vxs, vys, ozs, wzs) =
             fold (calculateFromPxPy_body data) [0..<len] (zeros, zeros, zeros, zeros)
      in data\<lparr>vx := vxs, vy := vys, oz := ozs, wz := wzs\<rparr>)"

subsection \<open>Velocity mode: calculateFromVxVy\<close>

type_synonym vxvy_state =
  "jsnum list \<times> jsnum list \<times> jsnum list \<times> jsnum list \<times> jsnum \<times> jsnum"

definition calculateFromVxVy_body :: "InputData \<Rightarrow> nat \<Rightarrow> vxvy_state \<Rightarrow> vxvy_state" where
  "calculateFromVxVy_body data i = (\<lambda>(pxs, pys, ozs, wzs, x, y).
     let pxs' = wr pxs i x;
         pys' = wr pys i y;
         speed = jsqrt (jadd (jmul (rd (vx data) (int i)) (rd (vx data) (int i)))
                             (jmul (rd (vy data) (int i)) (rd (vy data) (int i))));
         ozs' = (if jgt speed (Num (1 / 100))
                 then wr ozs i (jatan2 (rd (vy data) (int i)) (rd (vx data) (int i)))
                 else if 0 < i then wr ozs i (rd ozs (int i - 1))
                 else ozs);
         wzs' = (if 0 < i
                 then wr wzs i (yaw_rate (rd ozs' (int i)) (rd ozs' (int i - 1)))
                 else wzs);
         x' = jadd x (jmul (rd (vx data) (int i)) (Num CONFIG_dt));
         y' = jadd y (jmul (rd (vy data) (int i)) (Num CONFIG_dt))
     in (pxs', pys', ozs', wzs', x', y'))"

definition calculateFromVxVy :: "InputData \<Rightarrow> InputData" where
  "calculateFromVxVy data =
     (let len = length (vx data);
          zeros = replicate len (Num 0);
          x = or0 (rd (px data) 0);
          y = or0 (rd (py data) 0);
          (pxs, pys, ozs, wzs, x', y') =
             fold (calculateFromVxVy_body data) [0..<len] (zeros, zeros, zeros, zeros, x, y)
      in data\<lparr>px := pxs, py := pys, oz := ozs, wz := wzs\<rparr>)"

subsection \<open>Integral mode: calculateFromVxWz\<close>

type_synonym vxwz_state =
  "jsnum list \<times> jsnum list \<times> jsnum list \<times> jsnum list \<times> jsnum \<times> jsnum \<times> jsnum"

definition calculateFromVxWz_body :: "InputData \<Rightarrow> nat \<Rightarrow> vxwz_state \<Rightarrow> vxwz_state" where
  "calculateFromVxWz_body data i = (\<lambda>(pxs, pys, ozs, vys, x, y, theta).
     let pxs' = wr pxs i x;
         pys' = wr pys i y;
         ozs' = wr ozs i theta;
         vys' = wr vys i (jmul (rd (vx data) (int i)) (jtan theta));
         x' = jadd x (jmul (rd (vx data) (int i)) (Num CONFIG_dt));
         y' = jadd y (jmul (rd vys' (int i)) (Num CONFIG_dt));
         theta' = normalize_angle (jadd theta (jmul (rd (wz data) (int i)) (Num CONFIG_dt)))
     in (pxs', pys', ozs', vys', x', y', theta'))"

definition calculateFromVxWz :: "InputData \<Rightarrow> InputData" where
  "calculateFromVxWz data =
     (let len = length (vx data);
          zeros = replicate len (Num 0);
          x = or0 (rd (px data) 0);
          y = or0 (rd (py data) 0);
          theta = or0 (rd (oz data) 0);
          (pxs, pys, ozs, vys, x', y', theta') =
             fold (calculateFromVxWz_body data) [0..<len]
               (zeros, zeros, zeros, zeros, x, y, theta)
      in data\<lparr>px := pxs, py := pys, oz := ozs, vy := vys\<rparr>)"

subsection \<open>Differential mode: calculateFromPxOz\<close>

type_synonym pxoz_state =
  "jsnum list \<times> jsnum list \<times> jsnum list \<times> jsnum list \<times> jsnum"

definition calculateFromPxOz_body :: "InputData \<Rightarrow> nat \<Rightarrow> pxoz_state \<Rightarrow> pxoz_state" where
  "calculateFromPxOz_body data i = (\<lambda>(pys, vxs, vys, wzs, y).
     let len = length (px data);
         vxs' = wr vxs i (finite_difference (px data) len i);
         vys' = wr vys i (jmul (rd vxs' (int i)) (jtan (rd (oz data) (int i))));
         wzs' = (if 0 < i
                 then wr wzs i (yaw_rate (rd (oz data) (int i)) (rd (oz data) (int i - 1)))
                 else wzs);
         pys' = wr pys i y;
         y' = jadd y (jmul (rd vys' (int i)) (Num CONFIG_dt))
     in (pys', vxs', vys', wzs', y'))"

definition calculateFromPxOz :: "InputData \<Rightarrow> InputData" where
  "calculateFromPxOz data =
     (let len = length (px data);
          zeros = replicate len (Num 0);
          y = or0 (rd (py data) 0);
          (pys, vxs, vys, wzs, y') =
             fold (calculateFromPxOz_body data) [0..<len] (zeros, zeros, zeros, zeros, y)
      in data\<lparr>py := pys, vx := vxs, vy := vys, wz := wzs\<rparr>)"

subsection \<open>Dispatch on the calculation mode\<close>

fun getCompleteTrajectoryData :: "InputData \<Rightarrow> Methods \<Rightarrow> InputData" where
  "getCompleteTrajectoryData data position = calculateFromPxPy data"
| "getCompleteTrajectoryData data velocity = calculateFromVxVy data"
| "getCompleteTrajectoryData data integral = calculateFromVxWz data"
| "getCompleteTrajectoryData data differential = calculateFromPxOz data"

section \<open>The metrics engine: calculateOutputData\<close>

text \<open>
  The ground truth is optional (\<open>gtData?: InputData\<close>). The six buffers of \<open>InputData\<close>
  are arrays, which are truthy also when empty, so the guard on missing buffers at the head
  of the function is never taken on a value of this type, and \<open>gtData?.px && gtData?.py\<close>
  holds exactly when a ground truth is passed.
\<close>

definition calculateOutputData_body ::
    "InputData \<Rightarrow> InputData option \<Rightarrow> nat \<Rightarrow> arrays4 \<Rightarrow> arrays4" where
  "calculateOutputData_body data gtData i = (\<lambda>(axs, ays, czs, l1s).
     let axs' = (if 0 < i
                 then wr axs i (jdiv (jsub (rd (vx data) (int i)) (rd (vx data) (int i - 1)))
                                     (Num CONFIG_dt))
                 else axs);
         ays' = (if 0 < i
                 then wr ays i (jdiv (jsub (rd (vy data) (int i)) (rd (vy data) (int i - 1)))
                                     (Num CONFIG_dt))
                 else ays);
         v = jsqrt (jadd (jmul (rd (vx data) (int i)) (rd (vx data) (int i)))
                         (jmul (rd (vy data) (int i)) (rd (vy data) (int i))));
         czs' = (if jgt v (Num (1 / 10))
                 then wr czs i (jdiv (rd (wz data) (int i)) v)
                 else wr czs i (Num 0));
         l1s' = (case gtData of
                   None \<Rightarrow> l1s
                 | Some g \<Rightarrow>
                     (if i < length (px g)
                      then (let dx = jsub (rd (px data) (int i)) (rd (px g) (int i));
                                dy = jsub (rd (py data) (int i)) (rd (py g) (int i))
                            in wr l1s i (jsqrt (jadd (jmul dx dx) (jmul dy dy))))
                      else l1s))
     in (axs', ays', czs', l1s'))"

definition calculateOutputData :: "InputData \<Rightarrow> InputData option \<Rightarrow> OutputData" where
  "calculateOutputData data gtData =
     (let len = length (px data);
          zeros = replicate len (Num 0);
          (axs, ays, czs, l1s) =
             fold (calculateOutputData_body data gtData) [0..<len] (zeros, zeros, zeros, zeros)
      in \<lparr>ax = axs, ay = ays, cz = czs, l1 = l1s\<rparr>)"

section \<open>The store and its write operations (state/traj.ts)\<close>

text \<open>
  The store holds one array per key of the three atom families and the selected method.
  A write callback is a function from the store to the store; a derived read-only atom is a
  function of the store. The field \<open>syncRuns\<close> is not part of the program: it counts the
  runs of the write callback of \<open>syncOutputDataAtom\<close>, so that a statement about when the
  synchronisation runs can be written down.
\<close>

record Store =
  inputDataAtomFamily :: InputData
  outputDataAtomFamily :: OutputData
  gtAtomFamily :: InputData
  methodAtom :: Methods
  syncRuns :: nat

fun getInput :: "InputData \<Rightarrow> InputKey \<Rightarrow> jsnum list" where
  "getInput d K_px = px d"
| "getInput d K_py = py d"
| "getInput d K_oz = oz d"
| "getInput d K_vx = vx d"
| "getInput d K_vy = vy d"
| "getInput d K_wz = wz d"

fun setInput :: "InputData \<Rightarrow> InputKey \<Rightarrow> jsnum list \<Rightarrow> InputData" where
  "setInput d K_px xs = d\<lparr>px := xs\<rparr>"
| "setInput d K_py xs = d\<lparr>py := xs\<rparr>"
| "setInput d K_oz xs = d\<lparr>oz := xs\<rparr>"
| "setInput d K_vx xs = d\<lparr>vx := xs\<rparr>"
| "setInput d K_vy xs = d\<lparr>vy := xs\<rparr>"
| "setInput d K_wz xs = d\<lparr>wz := xs\<rparr>"

fun getOutput :: "OutputData \<Rightarrow> OutputKey \<Rightarrow> jsnum list" where
  "getOutput d K_ax = ax d"
| "getOutput d K_ay = ay d"
| "getOutput d K_cz = cz d"
| "getOutput d K_l1 = l1 d"

fun setOutput :: "OutputData \<Rightarrow> OutputKey \<Rightarrow> jsnum list \<Rightarrow> OutputData" where
  "setOutput d K_ax xs = d\<lparr>ax := xs\<rparr>"
| "setOutput d K_ay xs = d\<lparr>ay := xs\<rparr>"
| "setOutput d K_cz xs = d\<lparr>cz := xs\<rparr>"
| "setOutput d K_l1 xs = d\<lparr>l1 := xs\<rparr>"

text \<open>\<open>set (inputDataAtomFamily (key), xs)\<close> and \<open>set (outputDataAtomFamily (key), xs)\<close>.\<close>

definition set_input :: "InputKey \<Rightarrow> jsnum list \<Rightarrow> Store \<Rightarrow> Store" where
  "set_input key xs s = s\<lparr>inputDataAtomFamily := setInput (inputDataAtomFamily s) key xs\<rparr>"

definition set_output :: "OutputKey \<Rightarrow> jsnum list \<Rightarrow> Store \<Rightarrow> Store" where
  "set_output key xs s = s\<lparr>outputDataAtomFamily := setOutput (outputDataAtomFamily s) key xs\<rparr>"

definition inputKeys :: "InputKey list" where
  "inputKeys = [K_px, K_py, K_oz, K_vx, K_vy, K_wz]"

definition inputDataAtom :: "Store \<Rightarrow> InputData" where
  "inputDataAtom s =
     \<lparr>px = getInput (inputDataAtomFamily s) K_px, py = getInput (inputDataAtomFamily s) K_py,
      oz = getInput (inputDataAtomFamily s) K_oz, vx = getInput (inputDataAtomFamily s) K_vx,
      vy = getInput (inputDataAtomFamily s) K_vy, wz = getInput (inputDataAtomFamily s) K_wz\<rparr>"

definition completeTrajectoryDataAtom :: "Store \<Rightarrow> InputData" where
  "completeTrajectoryDataAtom s = getCompleteTrajectoryData (inputDataAtom s) (methodAtom s)"

definition gtDataAtom :: "Store \<Rightarrow> InputData" where
  "gtDataAtom s =
     \<lparr>px = getInput (gtAtomFamily s) K_px, py = getInput (gtAtomFamily s) K_py,
      oz = getInput (gtAtomFamily s) K_oz, vx = getInput (gtAtomFamily s) K_vx,
      vy = getInput (gtAtomFamily s) K_vy, wz = getInput (gtAtomFamily s) K_wz\<rparr>"

definition hasGroundTruthAtom :: "Store \<Rightarrow> bool" where
  "hasGroundTruthAtom s = (0 < length (px (gtDataAtom s)))"

definition outputDataInternalAtom :: "Store \<Rightarrow> OutputData" where
  "outputDataInternalAtom s =
     calculateOutputData (completeTrajectoryDataAtom s)
       (if hasGroundTruthAtom s then Some (gtDataAtom s) else None)"

text \<open>
  The synchronisation reads the complete data and the metrics once, before its first write,
  then writes the four metrics and every input signal that the method does not name.
\<close>

definition syncOutputDataAtom :: "Store \<Rightarrow> Store" where
  "syncOutputDataAtom s =
     (let completeData = completeTrajectoryDataAtom s;
          outputData = outputDataInternalAtom s;
          mode = methodAtom s;
          activeInputs = set (METHODS_inputs mode);
          s1 = set_output K_ax (ax outputData) s;
          s2 = set_output K_ay (ay outputData) s1;
          s3 = set_output K_cz (cz outputData) s2;
          s4 = set_output K_l1 (l1 outputData) s3;
          s5 = fold (\<lambda>key st. if key \<notin> activeInputs
                                then set_input key (getInput completeData key) st
                                else st) inputKeys s4
      in s5\<lparr>syncRuns := Suc (syncRuns s5)\<rparr>)"

text \<open>
  \<open>DataKey = keyof InputData | keyof OutputData\<close>; the test
  \<open>["ax", "ay", "cz", "l1"].includes (key)\<close> holds on the second summand. An update
  carries an array index, which the graph component clamps to a natural number.
\<close>

datatype DataKey = InKey InputKey | OutKey OutputKey

fun isOutputKey :: "DataKey \<Rightarrow> bool" where
  "isOutputKey (OutKey k) = True"
| "isOutputKey (InKey k) = False"

definition apply_updates :: "jsnum list \<Rightarrow> (nat \<times> jsnum) list \<Rightarrow> jsnum list" where
  "apply_updates currentData updates =
     fold (\<lambda>(index, val) newData. wr newData index val) updates currentData"

fun batchUpdateTimeSeriesAtom :: "DataKey \<Rightarrow> (nat \<times> jsnum) list \<Rightarrow> Store \<Rightarrow> Store" where
  "batchUpdateTimeSeriesAtom (OutKey key) updates s =
     (let currentData = getOutput (outputDataAtomFamily s) key;
          newData = apply_updates currentData updates
      in set_output key newData s)"
| "batchUpdateTimeSeriesAtom (InKey key) updates s =
     (let currentData = getInput (inputDataAtomFamily s) key;
          newData = apply_updates currentData updates
      in syncOutputDataAtom (set_input key newData s))"

text \<open>\<open>Partial<InputData>\<close>: a map from the six keys to arrays.\<close>

definition importTrajectoryAtom :: "(InputKey \<rightharpoonup> jsnum list) \<Rightarrow> Store \<Rightarrow> Store" where
  "importTrajectoryAtom data s =
     syncOutputDataAtom
       (fold (\<lambda>key st. case data key of Some arr \<Rightarrow> set_input key arr st | None \<Rightarrow> st)
          inputKeys s)"

section \<open>Import of a document (useImport and its helpers)\<close>

text \<open>
  A parsed document is either not an object, or an object; of an object only the six
  recognised keys are read, and a key is read as present when its value is an array.
\<close>

datatype document = NotObject | Object "InputKey \<rightharpoonup> jsnum list"

fun validateImportData :: "document \<Rightarrow> bool" where
  "validateImportData NotObject = False"
| "validateImportData (Object d) = list_ex (\<lambda>key. d key \<noteq> None) inputKeys"

function pad_loop :: "jsnum list \<Rightarrow> nat \<Rightarrow> jsnum list" where
  "pad_loop padded targetLength =
     (if length padded < targetLength then pad_loop (padded @ [Num 0]) targetLength
      else padded)"
  by pat_completeness auto
termination
  by (relation "measure (\<lambda>(padded, targetLength). targetLength - length padded)") auto

definition padOrTruncate :: "jsnum list \<Rightarrow> nat \<Rightarrow> jsnum list" where
  "padOrTruncate arr targetLength =
     (if length arr = targetLength then arr
      else if targetLength < length arr then take targetLength arr
      else pad_loop arr targetLength)"

definition processedData :: "(InputKey \<rightharpoonup> jsnum list) \<Rightarrow> (InputKey \<rightharpoonup> jsnum list)" where
  "processedData d =
     fold (\<lambda>key m. case d key of
                      Some arr \<Rightarrow> m(key \<mapsto> padOrTruncate arr CONFIG_timeSteps)
                    | None \<Rightarrow> m) inputKeys Map.empty"

text \<open>
  The handler of the file input, after the file is parsed: a rejected document is reported
  and the handler returns; an accepted one is normalised and imported.
\<close>

definition importData :: "document \<Rightarrow> Store \<Rightarrow> Store" where
  "importData doc s =
     (if \<not> validateImportData doc then s
      else (case doc of
              NotObject \<Rightarrow> s
            | Object d \<Rightarrow> importTrajectoryAtom (processedData d) s))"

section \<open>Notions of the specification, on real sequences\<close>

text \<open>
  The finite-difference velocity of the specification: the forward difference quotient, and
  the backward one at the final index.
\<close>

definition difference_quotient :: "real list \<Rightarrow> nat \<Rightarrow> real" where
  "difference_quotient xs i =
     (if Suc i < length xs then (xs ! Suc i - xs ! i) / CONFIG_dt
      else (xs ! i - xs ! (i - 1)) / CONFIG_dt)"

text \<open>One adjustment by a full turn, which is all that a difference of two headings needs.\<close>

definition wrap_closed :: "real \<Rightarrow> real" where
  "wrap_closed d = (if pi < d then d - 2 * pi else if d < - pi then d + 2 * pi else d)"


section \<open>The running values of the loop variables\<close>

text \<open>The value of \<open>x\<close> after \<open>k\<close> rounds of \<open>x += vs[i] * CONFIG.dt\<close>, from \<open>x0\<close>.\<close>

primrec integrate :: "jsnum \<Rightarrow> jsnum list \<Rightarrow> nat \<Rightarrow> jsnum" where
  "integrate x0 vs 0 = x0"
| "integrate x0 vs (Suc k) = jadd (integrate x0 vs k) (jmul (rd vs (int k)) (Num CONFIG_dt))"


text \<open>
  The seed of an integration, as the specification words it: the first entry of the prior
  buffer when there is one (and it is a number), and \<open>0\<close> otherwise.
\<close>

definition seed :: "jsnum list \<Rightarrow> real" where
  "seed xs = (case xs of [] \<Rightarrow> 0 | Num r # _ \<Rightarrow> r | NaN # _ \<Rightarrow> 0 | Undefined # _ \<Rightarrow> 0)"

text \<open>
  The input buffers after the arrays of a document have been written: a signal the document
  holds is replaced, a signal it does not hold is kept.
\<close>

definition replace_present :: "(InputKey \<rightharpoonup> jsnum list) \<Rightarrow> InputData \<Rightarrow> InputData" where
  "replace_present d old =
     \<lparr>px = (case d K_px of Some arr \<Rightarrow> arr | None \<Rightarrow> px old),
      py = (case d K_py of Some arr \<Rightarrow> arr | None \<Rightarrow> py old),
      oz = (case d K_oz of Some arr \<Rightarrow> arr | None \<Rightarrow> oz old),
      vx = (case d K_vx of Some arr \<Rightarrow> arr | None \<Rightarrow> vx old),
      vy = (case d K_vy of Some arr \<Rightarrow> arr | None \<Rightarrow> vy old),
      wz = (case d K_wz of Some arr \<Rightarrow> arr | None \<Rightarrow> wz old)\<rparr>"

section \<open>Concrete inputs\<close>

text \<open>A path that goes backwards, then forwards, along the x axis.\<close>

definition reversing_path :: InputData where
  "reversing_path =
     \<lparr>px = [Num 0, Num (- (1 / 10)), Num 0], py = [Num 0, Num 0, Num 0],
      oz = [Num 0, Num 0, Num 0], vx = [Num 0, Num 0, Num 0],
      vy = [Num 0, Num 0, Num 0], wz = [Num 0, Num 0, Num 0]\<rparr>"

text \<open>Four samples at unit speed along the x axis, from the origin.\<close>

definition unit_speed :: InputData where
  "unit_speed =
     \<lparr>px = [Num 0, Num 0, Num 0, Num 0], py = [Num 0, Num 0, Num 0, Num 0],
      oz = [Num 0, Num 0, Num 0, Num 0], vx = [Num 1, Num 1, Num 1, Num 1],
      vy = [Num 0, Num 0, Num 0, Num 0], wz = [Num 0, Num 0, Num 0, Num 0]\<rparr>"



text \<open>A ground truth of two samples, one metre off the origin at the first.\<close>

definition short_truth :: InputData where
  "short_truth =
     \<lparr>px = [Num 1, Num 0], py = [Num 0, Num 0], oz = [Num 0, Num 0],
      vx = [Num 0, Num 0], vy = [Num 0, Num 0], wz = [Num 0, Num 0]\<rparr>"

text \<open>The same positions as \<open>short_truth\<close>, with other headings, velocities and yaw rates.\<close>

definition short_truth_turning :: InputData where
  "short_truth_turning =
     \<lparr>px = [Num 1, Num 0], py = [Num 0, Num 0], oz = [Num 1, Num 2],
      vx = [Num 3, Num 4], vy = [Num 5, Num 6], wz = [Num 7, Num 8]\<rparr>"

text \<open>
  A store at rest at the origin, in the default method: all input and metric buffers hold
  \<open>CONFIG.timeSteps\<close> zeros, and no ground truth is set.
\<close>

definition resting_store :: Store where
  "resting_store =
     \<lparr>inputDataAtomFamily =
        \<lparr>px = replicate 33 (Num 0), py = replicate 33 (Num 0), oz = replicate 33 (Num 0),
         vx = replicate 33 (Num 0), vy = replicate 33 (Num 0), wz = replicate 33 (Num 0)\<rparr>,
      outputDataAtomFamily =
        \<lparr>ax = replicate 33 (Num 0), ay = replicate 33 (Num 0), cz = replicate 33 (Num 0),
         l1 = replicate 33 (Num 0)\<rparr>,
      gtAtomFamily = \<lparr>px = [], py = [], oz = [], vx = [], vy = [], wz = []\<rparr>,
      methodAtom = position,
      syncRuns = 0\<rparr>"

text \<open>
  A state that keeps nothing of \<open>unit_speed\<close> but the positions that velocity mode derives
  from it: its two velocity signals are empty, its heading and yaw rate arbitrary.
\<close>

definition positions_only :: InputData where
  "positions_only =
     \<lparr>px = px (getCompleteTrajectoryData unit_speed velocity),
      py = py (getCompleteTrajectoryData unit_speed velocity),
      oz = [Num 9], vx = [], vy = [], wz = [NaN]\<rparr>"

section \<open>Arrays and angle normalisation: basic facts\<close>

declare sub_loop.simps [simp del]
declare add_loop.simps [simp del]

lemma wr_update: "i < length xs \<Longrightarrow> wr xs i v = xs[i := v]"
  by (simp add: wr_def)

lemma rd_nth: "i < length xs \<Longrightarrow> rd xs (int i) = xs ! i"
  by (simp add: rd_def)

lemma rd_pred: "0 < i \<Longrightarrow> i \<le> length xs \<Longrightarrow> rd xs (int i - 1) = xs ! (i - 1)"
  by (simp add: rd_def nat_diff_distrib' of_nat_diff)

lemma rd_succ: "Suc i < length xs \<Longrightarrow> rd xs (int i + 1) = xs ! Suc i"
  by (simp add: rd_def nat_add_distrib)




lemma normalize_angle_not_num:
  "\<not> is_number t \<Longrightarrow> normalize_angle t = t"
  by (cases t) (simp_all add: normalize_angle_def sub_loop.simps add_loop.simps jgt_def jlt_def)

lemma normalize_angle_id:
  "- pi \<le> r \<Longrightarrow> r \<le> pi \<Longrightarrow> normalize_angle (Num r) = Num r"
  by (simp add: normalize_angle_def sub_loop.simps add_loop.simps jgt_def jlt_def)

lemma normalize_angle_once:
  assumes "- 2 * pi \<le> d" "d \<le> 2 * pi"
  shows "normalize_angle (Num d) =
           Num (if pi < d then d - 2 * pi else if d < - pi then d + 2 * pi else d)"
proof -
  have pp: "0 < pi" by simp
  consider "pi < d" | "d < - pi" | "- pi \<le> d" "d \<le> pi" by linarith
  then show ?thesis
  proof cases
    case 1
    have stop: "\<not> pi < d - 2 * pi" using assms pp by linarith
    have low: "\<not> d - 2 * pi < - pi" using 1 by linarith
    have "sub_loop (Num d) = sub_loop (Num (d - 2 * pi))"
      using 1 by (subst sub_loop.simps) (simp add: jgt_def jsub_def jbin_def)
    also have "\<dots> = Num (d - 2 * pi)"
      using stop by (subst sub_loop.simps) (simp add: jgt_def)
    finally have "sub_loop (Num d) = Num (d - 2 * pi)" .
    moreover have "add_loop (Num (d - 2 * pi)) = Num (d - 2 * pi)"
      using low by (subst add_loop.simps) (simp add: jlt_def)
    ultimately show ?thesis using 1 by (simp add: normalize_angle_def)
  next
    case 2
    have npi: "\<not> pi < d" using 2 pp by linarith
    have stop: "\<not> d + 2 * pi < - pi" using assms pp by linarith
    have "sub_loop (Num d) = Num d"
      using npi by (subst sub_loop.simps) (simp add: jgt_def)
    moreover have "add_loop (Num d) = add_loop (Num (d + 2 * pi))"
      using 2 by (subst add_loop.simps) (simp add: jlt_def jadd_def jbin_def)
    moreover have "add_loop (Num (d + 2 * pi)) = Num (d + 2 * pi)"
      using stop by (subst add_loop.simps) (simp add: jlt_def)
    ultimately show ?thesis using 2 npi by (simp add: normalize_angle_def)
  next
    case 3
    then show ?thesis by (simp add: normalize_angle_id)
  qed
qed

section \<open>Position mode, index by index\<close>

lemma rd_0: "0 < length xs \<Longrightarrow> rd xs 0 = xs ! 0"
  by (simp add: rd_def)

lemma calculateFromPxPy_body_eq:
  assumes "i < length (px data)"
    and "length vxs = length (px data)" "length vys = length (px data)"
    and "length ozs = length (px data)" "length wzs = length (px data)"
  shows "calculateFromPxPy_body data i (vxs, vys, ozs, wzs) =
     (let vxi = finite_difference (px data) (length (px data)) i;
          vyi = finite_difference (py data) (length (px data)) i;
          ozi = (if jgt (jsqrt (jadd (jmul vxi vxi) (jmul vyi vyi))) (Num (1 / 100))
                 then jatan2 vyi vxi
                 else if 0 < i then ozs ! (i - 1) else ozs ! i);
          wzi = (if 0 < i then yaw_rate ozi (ozs ! (i - 1)) else wzs ! i)
      in (vxs[i := vxi], vys[i := vyi], ozs[i := ozi], wzs[i := wzi]))"
  using assms
  by (cases "i = 0") (simp_all add: calculateFromPxPy_body_def Let_def wr_update rd_nth rd_pred rd_0)

lemma calculateFromPxPy_fold:
  fixes data :: InputData
  defines "n \<equiv> length (px data)"
  assumes "k \<le> n"
  shows "\<exists>vxs vys ozs wzs.
     fold (calculateFromPxPy_body data) [0..<k]
       (replicate n (Num 0), replicate n (Num 0), replicate n (Num 0), replicate n (Num 0))
       = (vxs, vys, ozs, wzs)
     \<and> length vxs = n \<and> length vys = n \<and> length ozs = n \<and> length wzs = n
     \<and> (\<forall>i<k. vxs ! i = finite_difference (px data) n i
             \<and> vys ! i = finite_difference (py data) n i
             \<and> ozs ! i = (if jgt (jsqrt (jadd (jmul (vxs ! i) (vxs ! i)) (jmul (vys ! i) (vys ! i))))
                                (Num (1 / 100))
                           then jatan2 (vys ! i) (vxs ! i)
                           else if 0 < i then ozs ! (i - 1) else Num 0)
             \<and> wzs ! i = (if 0 < i then yaw_rate (ozs ! i) (ozs ! (i - 1)) else Num 0))
     \<and> (\<forall>i. k \<le> i \<and> i < n \<longrightarrow> ozs ! i = Num 0 \<and> wzs ! i = Num 0)"
  using assms(2)
proof (induction k)
  case 0
  then show ?case by simp
next
  case (Suc k)
  then have kn: "k < n" and "k \<le> n" by simp_all
  with Suc.IH obtain vxs vys ozs wzs where
    run: "fold (calculateFromPxPy_body data) [0..<k]
       (replicate n (Num 0), replicate n (Num 0), replicate n (Num 0), replicate n (Num 0))
       = (vxs, vys, ozs, wzs)"
    and len: "length vxs = n" "length vys = n" "length ozs = n" "length wzs = n"
    and prev: "\<forall>i<k. vxs ! i = finite_difference (px data) n i
             \<and> vys ! i = finite_difference (py data) n i
             \<and> ozs ! i = (if jgt (jsqrt (jadd (jmul (vxs ! i) (vxs ! i)) (jmul (vys ! i) (vys ! i))))
                                (Num (1 / 100))
                           then jatan2 (vys ! i) (vxs ! i)
                           else if 0 < i then ozs ! (i - 1) else Num 0)
             \<and> wzs ! i = (if 0 < i then yaw_rate (ozs ! i) (ozs ! (i - 1)) else Num 0)"
    and rest: "\<forall>i. k \<le> i \<and> i < n \<longrightarrow> ozs ! i = Num 0 \<and> wzs ! i = Num 0"
    by blast
  have zero: "ozs ! k = Num 0" "wzs ! k = Num 0"
    using rest kn by simp_all
  have step: "fold (calculateFromPxPy_body data) [0..<Suc k]
       (replicate n (Num 0), replicate n (Num 0), replicate n (Num 0), replicate n (Num 0))
       = calculateFromPxPy_body data k (vxs, vys, ozs, wzs)"
    using run by simp
  show ?case
    unfolding step
    using kn len prev rest zero
    apply (simp only: calculateFromPxPy_body_eq[where data = data and i = k, unfolded n_def[symmetric]] Let_def)
    apply (intro exI conjI)
            apply (rule refl)
           apply simp
          apply simp
         apply simp
        apply simp
     apply (auto simp: nth_list_update less_Suc_eq)
    done
qed

lemma speed_gt_num:
  assumes "jgt (jsqrt (jadd (jmul a a) (jmul b b))) c"
  shows "\<exists>u v. a = Num u \<and> b = Num v"
  using assms
  by (cases a; cases b) (simp_all add: jgt_def jsqrt_def jadd_def jmul_def jbin_def)

lemma atan2_range: "- pi \<le> atan2 y x \<and> atan2 y x \<le> pi"
proof -
  have lb: "- (pi / 2) < arctan (y / x)" and ub: "arctan (y / x) < pi / 2"
    using arctan_lbound[of "y / x"] arctan_ubound[of "y / x"] by simp_all
  have pp: "0 < pi" by simp
  consider "0 < x" | "x < 0" "0 \<le> y" | "x < 0" "y < 0" | "x = 0"
    by linarith
  then show ?thesis
  proof cases
    case 1
    then have "atan2 y x = arctan (y / x)" by (simp add: atan2_def)
    then show ?thesis using lb ub pp by linarith
  next
    case 2
    then have "y / x \<le> 0" by (simp add: divide_nonneg_neg)
    then have le: "arctan (y / x) \<le> 0" by (simp add: arctan_le_zero_iff)
    have "atan2 y x = arctan (y / x) + pi" using 2 by (simp add: atan2_def)
    then show ?thesis using le lb pp by linarith
  next
    case 3
    then have "0 < y / x" by (simp add: divide_neg_neg)
    then have gt: "0 < arctan (y / x)" by (simp add: zero_less_arctan_iff)
    have "atan2 y x = arctan (y / x) - pi" using 3 by (simp add: atan2_def)
    then show ?thesis using gt ub pp by linarith
  next
    case 4
    then have "atan2 y x = pi / 2 \<or> atan2 y x = - (pi / 2) \<or> atan2 y x = 0"
      by (simp add: atan2_def)
    then show ?thesis using pp by linarith
  qed
qed

lemma calculateFromPxPy_spec:
  fixes data :: InputData
  defines "n \<equiv> length (px data)"
  defines "r \<equiv> calculateFromPxPy data"
  shows "px r = px data \<and> py r = py data
     \<and> length (vx r) = n \<and> length (vy r) = n \<and> length (oz r) = n \<and> length (wz r) = n
     \<and> (\<forall>i<n. vx r ! i = finite_difference (px data) n i
             \<and> vy r ! i = finite_difference (py data) n i
             \<and> oz r ! i = (if jgt (jsqrt (jadd (jmul (vx r ! i) (vx r ! i))
                                                (jmul (vy r ! i) (vy r ! i))))
                                    (Num (1 / 100))
                             then jatan2 (vy r ! i) (vx r ! i)
                             else if 0 < i then oz r ! (i - 1) else Num 0)
             \<and> wz r ! i = (if 0 < i then yaw_rate (oz r ! i) (oz r ! (i - 1)) else Num 0))"
proof -
  obtain vxs vys ozs wzs where
    run: "fold (calculateFromPxPy_body data) [0..<n]
       (replicate n (Num 0), replicate n (Num 0), replicate n (Num 0), replicate n (Num 0))
       = (vxs, vys, ozs, wzs)"
    and rest: "length vxs = n \<and> length vys = n \<and> length ozs = n \<and> length wzs = n
     \<and> (\<forall>i<n. vxs ! i = finite_difference (px data) n i
             \<and> vys ! i = finite_difference (py data) n i
             \<and> ozs ! i = (if jgt (jsqrt (jadd (jmul (vxs ! i) (vxs ! i)) (jmul (vys ! i) (vys ! i))))
                                (Num (1 / 100))
                           then jatan2 (vys ! i) (vxs ! i)
                           else if 0 < i then ozs ! (i - 1) else Num 0)
             \<and> wzs ! i = (if 0 < i then yaw_rate (ozs ! i) (ozs ! (i - 1)) else Num 0))"
    using calculateFromPxPy_fold[of n data] unfolding n_def by blast
  have r: "r = data\<lparr>vx := vxs, vy := vys, oz := ozs, wz := wzs\<rparr>"
    using run unfolding r_def calculateFromPxPy_def n_def[symmetric] by (simp add: Let_def)
  show ?thesis
    unfolding r using rest by simp
qed

lemma heading_range_step:
  assumes "t = (if jgt (jsqrt (jadd (jmul a a) (jmul b b))) c then jatan2 b a
                else if 0 < (i::nat) then prev else Num 0)"
    and "0 < i \<Longrightarrow> \<exists>\<theta>. prev = Num \<theta> \<and> - pi \<le> \<theta> \<and> \<theta> \<le> pi"
  shows "\<exists>\<theta>. t = Num \<theta> \<and> - pi \<le> \<theta> \<and> \<theta> \<le> pi"
proof (cases "jgt (jsqrt (jadd (jmul a a) (jmul b b))) c")
  case True
  then obtain u v where "a = Num u" "b = Num v"
    using speed_gt_num by blast
  then have "t = Num (atan2 v u)"
    using assms(1) True by (simp add: jatan2_def jbin_def)
  then show ?thesis using atan2_range by blast
next
  case False
  then show ?thesis using assms by (cases "0 < i") simp_all
qed

lemma calculateFromPxPy_oz_nth:
  assumes "i < length (px data)"
  shows "oz (calculateFromPxPy data) ! i =
     (if jgt (jsqrt (jadd (jmul (vx (calculateFromPxPy data) ! i) (vx (calculateFromPxPy data) ! i))
                          (jmul (vy (calculateFromPxPy data) ! i) (vy (calculateFromPxPy data) ! i))))
             (Num (1 / 100))
      then jatan2 (vy (calculateFromPxPy data) ! i) (vx (calculateFromPxPy data) ! i)
      else if 0 < i then oz (calculateFromPxPy data) ! (i - 1) else Num 0)"
  using calculateFromPxPy_spec[of data] assms by blast

lemma calculateFromPxPy_oz_range:
  assumes "i < length (px data)"
  shows "\<exists>\<theta>. oz (calculateFromPxPy data) ! i = Num \<theta> \<and> - pi \<le> \<theta> \<and> \<theta> \<le> pi"
  using assms
proof (induction i)
  case 0
  show ?case
    by (rule heading_range_step[where i = 0, OF calculateFromPxPy_oz_nth[OF 0]]) simp
next
  case (Suc i)
  then have prev: "\<exists>\<theta>. oz (calculateFromPxPy data) ! (Suc i - 1) = Num \<theta> \<and> - pi \<le> \<theta> \<and> \<theta> \<le> pi"
    by simp
  show ?case
    by (rule heading_range_step[where i = "Suc i", OF calculateFromPxPy_oz_nth[OF Suc.prems]])
       (rule prev)
qed

lemma finite_difference_Num:
  assumes "2 \<le> length xs" "i < length xs"
  shows "finite_difference (map Num xs) (length xs) i = Num (difference_quotient xs i)"
proof (cases "Suc i < length xs")
  case True
  then have "int i < int (length xs) - 1" by linarith
  then show ?thesis
    using True assms
    by (simp add: finite_difference_def difference_quotient_def rd_def jdiv_def jsub_def
        jbin_def CONFIG_dt_def nat_add_distrib)
next
  case False
  then have a: "\<not> int i < int (length xs) - 1" by linarith
  have b: "0 < i" using False assms by linarith
  have c: "nat (int i - 1) = i - 1" using b by linarith
  show ?thesis
    using False a b c assms
    by (simp add: finite_difference_def difference_quotient_def rd_def jdiv_def jsub_def
        jbin_def CONFIG_dt_def)
qed

lemma speed_gt_Num:
  "jgt (jsqrt (jadd (jmul (Num u) (Num u)) (jmul (Num v) (Num v)))) (Num c)
     = (c < sqrt (u * u + v * v))"
proof -
  have "\<not> u * u + v * v < 0"
    by (simp add: not_less)
  then show ?thesis
    by (simp add: jgt_def jsqrt_def jadd_def jmul_def jbin_def)
qed

lemma wrap_closed_range:
  assumes "- 2 * pi \<le> d" "d \<le> 2 * pi"
  shows "- pi \<le> wrap_closed d" "wrap_closed d \<le> pi" "d \<noteq> - pi \<Longrightarrow> - pi < wrap_closed d"
  using assms by (auto simp: wrap_closed_def)

lemma yaw_rate_Num:
  assumes "- 2 * pi \<le> a - b" "a - b \<le> 2 * pi"
  shows "yaw_rate (Num a) (Num b) = Num (wrap_closed (a - b) / CONFIG_dt)"
proof -
  have "jsub (Num a) (Num b) = Num (a - b)"
    by (simp add: jsub_def jbin_def)
  then have "normalize_angle (jsub (Num a) (Num b)) = Num (wrap_closed (a - b))"
    using normalize_angle_once[OF assms] by (simp add: wrap_closed_def)
  then show ?thesis
    by (simp add: yaw_rate_def jdiv_def CONFIG_dt_def)
qed

lemma position_mode_nth:
  assumes px: "px data = map Num xs" and py: "py data = map Num ys"
    and len: "length ys = length xs" and N: "2 \<le> length xs" and i: "i < length xs"
  defines "r \<equiv> getCompleteTrajectoryData data position"
  defines "u \<equiv> difference_quotient xs i" and "v \<equiv> difference_quotient ys i"
  shows "vx r ! i = Num u" "vy r ! i = Num v"
    "oz r ! i = (if 1 / 100 < sqrt (u * u + v * v) then Num (atan2 v u)
                 else if 0 < i then oz r ! (i - 1) else Num 0)"
    "0 < i \<Longrightarrow> \<exists>\<theta> \<theta>'. oz r ! i = Num \<theta> \<and> oz r ! (i - 1) = Num \<theta>'
         \<and> wz r ! i = Num (wrap_closed (\<theta> - \<theta>') / CONFIG_dt)
         \<and> - pi \<le> wrap_closed (\<theta> - \<theta>') \<and> wrap_closed (\<theta> - \<theta>') \<le> pi
         \<and> (\<theta> - \<theta>' = - pi \<or> - pi < wrap_closed (\<theta> - \<theta>'))"
    "i = 0 \<Longrightarrow> wz r ! i = Num 0"
proof -
  have r: "r = calculateFromPxPy data" by (simp add: r_def)
  have n: "length (px data) = length xs" using px by simp
  have i': "i < length (px data)" using i n by simp
  note spec = calculateFromPxPy_spec[of data, folded r]
  have "vx r ! i = finite_difference (px data) (length (px data)) i"
    using spec i' by blast
  then show vx: "vx r ! i = Num u"
    unfolding n unfolding px using finite_difference_Num[OF N i] by (simp add: u_def)
  have "vy r ! i = finite_difference (py data) (length (px data)) i"
    using spec i' by blast
  then show vy: "vy r ! i = Num v"
    unfolding n unfolding py using finite_difference_Num[of ys i] N i len by (simp add: v_def)
  have "oz r ! i = (if jgt (jsqrt (jadd (jmul (vx r ! i) (vx r ! i)) (jmul (vy r ! i) (vy r ! i))))
                           (Num (1 / 100))
                    then jatan2 (vy r ! i) (vx r ! i)
                    else if 0 < i then oz r ! (i - 1) else Num 0)"
    using spec i' by blast
  then show "oz r ! i = (if 1 / 100 < sqrt (u * u + v * v) then Num (atan2 v u)
                 else if 0 < i then oz r ! (i - 1) else Num 0)"
    unfolding vx vy speed_gt_Num by (simp add: jatan2_def jbin_def)
  have wz: "wz r ! i = (if 0 < i then yaw_rate (oz r ! i) (oz r ! (i - 1)) else Num 0)"
    using spec i' by blast
  show "wz r ! i = Num 0" if "i = 0"
    using wz that by simp
  show "\<exists>\<theta> \<theta>'. oz r ! i = Num \<theta> \<and> oz r ! (i - 1) = Num \<theta>'
         \<and> wz r ! i = Num (wrap_closed (\<theta> - \<theta>') / CONFIG_dt)
         \<and> - pi \<le> wrap_closed (\<theta> - \<theta>') \<and> wrap_closed (\<theta> - \<theta>') \<le> pi
         \<and> (\<theta> - \<theta>' = - pi \<or> - pi < wrap_closed (\<theta> - \<theta>'))" if "0 < i"
  proof -
    obtain a where a: "oz r ! i = Num a" "- pi \<le> a" "a \<le> pi"
      using calculateFromPxPy_oz_range[OF i'] r by auto
    have "i - 1 < length (px data)" using i' by simp
    then obtain b where b: "oz r ! (i - 1) = Num b" "- pi \<le> b" "b \<le> pi"
      using calculateFromPxPy_oz_range[of "i - 1" data] r by auto
    have d: "- 2 * pi \<le> a - b" "a - b \<le> 2 * pi"
      using a b by linarith+
    have "wz r ! i = Num (wrap_closed (a - b) / CONFIG_dt)"
      using wz that a b yaw_rate_Num[OF d] by simp
    then show ?thesis
      using a b wrap_closed_range[OF d] by blast
  qed
qed

section \<open>Velocity mode, index by index\<close>

lemma calculateFromVxVy_body_eq:
  assumes "i < n"
    and "length pxs = n" "length pys = n" "length ozs = n" "length wzs = n"
  shows "calculateFromVxVy_body data i (pxs, pys, ozs, wzs, x, y) =
     (let ozi = (if jgt (jsqrt (jadd (jmul (rd (vx data) (int i)) (rd (vx data) (int i)))
                                     (jmul (rd (vy data) (int i)) (rd (vy data) (int i)))))
                        (Num (1 / 100))
                 then jatan2 (rd (vy data) (int i)) (rd (vx data) (int i))
                 else if 0 < i then ozs ! (i - 1) else ozs ! i);
          wzi = (if 0 < i then yaw_rate ozi (ozs ! (i - 1)) else wzs ! i)
      in (pxs[i := x], pys[i := y], ozs[i := ozi], wzs[i := wzi],
          jadd x (jmul (rd (vx data) (int i)) (Num CONFIG_dt)),
          jadd y (jmul (rd (vy data) (int i)) (Num CONFIG_dt))))"
  using assms
  by (cases "i = 0") (simp_all add: calculateFromVxVy_body_def Let_def wr_update rd_nth rd_pred rd_0)

lemma calculateFromVxVy_fold:
  fixes data :: InputData
  defines "n \<equiv> length (vx data)"
  assumes "k \<le> n"
  shows "\<exists>pxs pys ozs wzs.
     fold (calculateFromVxVy_body data) [0..<k]
       (replicate n (Num 0), replicate n (Num 0), replicate n (Num 0), replicate n (Num 0), x0, y0)
       = (pxs, pys, ozs, wzs, integrate x0 (vx data) k, integrate y0 (vy data) k)
     \<and> length pxs = n \<and> length pys = n \<and> length ozs = n \<and> length wzs = n
     \<and> (\<forall>i<k. pxs ! i = integrate x0 (vx data) i
             \<and> pys ! i = integrate y0 (vy data) i
             \<and> ozs ! i = (if jgt (jsqrt (jadd (jmul (rd (vx data) (int i)) (rd (vx data) (int i)))
                                               (jmul (rd (vy data) (int i)) (rd (vy data) (int i)))))
                                (Num (1 / 100))
                           then jatan2 (rd (vy data) (int i)) (rd (vx data) (int i))
                           else if 0 < i then ozs ! (i - 1) else Num 0)
             \<and> wzs ! i = (if 0 < i then yaw_rate (ozs ! i) (ozs ! (i - 1)) else Num 0))
     \<and> (\<forall>i. k \<le> i \<and> i < n \<longrightarrow> ozs ! i = Num 0 \<and> wzs ! i = Num 0)"
  using assms(2)
proof (induction k)
  case 0
  then show ?case by simp
next
  case (Suc k)
  then have kn: "k < n" and "k \<le> n" by simp_all
  with Suc.IH obtain pxs pys ozs wzs where
    run: "fold (calculateFromVxVy_body data) [0..<k]
       (replicate n (Num 0), replicate n (Num 0), replicate n (Num 0), replicate n (Num 0), x0, y0)
       = (pxs, pys, ozs, wzs, integrate x0 (vx data) k, integrate y0 (vy data) k)"
    and len: "length pxs = n" "length pys = n" "length ozs = n" "length wzs = n"
    and prev: "\<forall>i<k. pxs ! i = integrate x0 (vx data) i
             \<and> pys ! i = integrate y0 (vy data) i
             \<and> ozs ! i = (if jgt (jsqrt (jadd (jmul (rd (vx data) (int i)) (rd (vx data) (int i)))
                                               (jmul (rd (vy data) (int i)) (rd (vy data) (int i)))))
                                (Num (1 / 100))
                           then jatan2 (rd (vy data) (int i)) (rd (vx data) (int i))
                           else if 0 < i then ozs ! (i - 1) else Num 0)
             \<and> wzs ! i = (if 0 < i then yaw_rate (ozs ! i) (ozs ! (i - 1)) else Num 0)"
    and rest: "\<forall>i. k \<le> i \<and> i < n \<longrightarrow> ozs ! i = Num 0 \<and> wzs ! i = Num 0"
    by blast
  have zero: "ozs ! k = Num 0" "wzs ! k = Num 0"
    using rest kn by simp_all
  have step: "fold (calculateFromVxVy_body data) [0..<Suc k]
       (replicate n (Num 0), replicate n (Num 0), replicate n (Num 0), replicate n (Num 0), x0, y0)
       = calculateFromVxVy_body data k
           (pxs, pys, ozs, wzs, integrate x0 (vx data) k, integrate y0 (vy data) k)"
    using run by simp
  show ?case
    unfolding step
    using kn len prev rest zero
    apply (simp only: calculateFromVxVy_body_eq[where data = data and i = k and n = n] Let_def)
    apply (intro exI conjI)
            apply (simp only: integrate.simps)
           apply simp
          apply simp
         apply simp
        apply simp
     apply (auto simp: nth_list_update less_Suc_eq)
    done
qed

lemma or0_rd_seed: "or0 (rd xs 0) = Num (seed xs)"
proof (cases xs)
  case Nil
  then show ?thesis by (simp add: or0_def rd_def seed_def)
next
  case (Cons a as)
  then show ?thesis by (cases a) (simp_all add: or0_def rd_def seed_def)
qed

lemma integrate_Num:
  assumes "k \<le> length us"
  shows "integrate (Num a) (map Num us) k = Num (a + CONFIG_dt * (\<Sum>j<k. us ! j))"
  using assms
proof (induction k)
  case 0
  show ?case by simp
next
  case (Suc k)
  then have "integrate (Num a) (map Num us) k = Num (a + CONFIG_dt * (\<Sum>j<k. us ! j))"
    and "k < length us" by simp_all
  then show ?case
    by (simp add: rd_def jadd_def jmul_def jbin_def algebra_simps)
qed

lemma calculateFromVxVy_spec:
  fixes data :: InputData
  defines "n \<equiv> length (vx data)"
  defines "r \<equiv> calculateFromVxVy data"
  shows "vx r = vx data \<and> vy r = vy data
     \<and> length (px r) = n \<and> length (py r) = n \<and> length (oz r) = n \<and> length (wz r) = n
     \<and> (\<forall>i<n. px r ! i = integrate (or0 (rd (px data) 0)) (vx data) i
             \<and> py r ! i = integrate (or0 (rd (py data) 0)) (vy data) i
             \<and> oz r ! i = (if jgt (jsqrt (jadd (jmul (rd (vx data) (int i)) (rd (vx data) (int i)))
                                                (jmul (rd (vy data) (int i)) (rd (vy data) (int i)))))
                                    (Num (1 / 100))
                             then jatan2 (rd (vy data) (int i)) (rd (vx data) (int i))
                             else if 0 < i then oz r ! (i - 1) else Num 0)
             \<and> wz r ! i = (if 0 < i then yaw_rate (oz r ! i) (oz r ! (i - 1)) else Num 0))"
proof -
  obtain pxs pys ozs wzs where
    run: "fold (calculateFromVxVy_body data) [0..<n]
       (replicate n (Num 0), replicate n (Num 0), replicate n (Num 0), replicate n (Num 0),
        or0 (rd (px data) 0), or0 (rd (py data) 0))
       = (pxs, pys, ozs, wzs, integrate (or0 (rd (px data) 0)) (vx data) n,
          integrate (or0 (rd (py data) 0)) (vy data) n)"
    and rest: "length pxs = n \<and> length pys = n \<and> length ozs = n \<and> length wzs = n
     \<and> (\<forall>i<n. pxs ! i = integrate (or0 (rd (px data) 0)) (vx data) i
             \<and> pys ! i = integrate (or0 (rd (py data) 0)) (vy data) i
             \<and> ozs ! i = (if jgt (jsqrt (jadd (jmul (rd (vx data) (int i)) (rd (vx data) (int i)))
                                               (jmul (rd (vy data) (int i)) (rd (vy data) (int i)))))
                                (Num (1 / 100))
                           then jatan2 (rd (vy data) (int i)) (rd (vx data) (int i))
                           else if 0 < i then ozs ! (i - 1) else Num 0)
             \<and> wzs ! i = (if 0 < i then yaw_rate (ozs ! i) (ozs ! (i - 1)) else Num 0))"
    using calculateFromVxVy_fold[of n data "or0 (rd (px data) 0)" "or0 (rd (py data) 0)"]
    unfolding n_def by blast
  have r: "r = data\<lparr>px := pxs, py := pys, oz := ozs, wz := wzs\<rparr>"
    using run unfolding r_def calculateFromVxVy_def n_def[symmetric] by (simp add: Let_def)
  show ?thesis
    unfolding r using rest by simp
qed



lemma velocity_mode_positions:
  assumes vx: "vx data = map Num us" and vy: "vy data = map Num vs"
    and len: "length vs = length us" and i: "i < length us"
  shows "px (getCompleteTrajectoryData data velocity) ! i
           = Num (seed (px data) + CONFIG_dt * (\<Sum>j<i. us ! j))"
    and "py (getCompleteTrajectoryData data velocity) ! i
           = Num (seed (py data) + CONFIG_dt * (\<Sum>j<i. vs ! j))"
proof -
  have i': "i < length (vx data)" using i vx by simp
  have "px (calculateFromVxVy data) ! i = integrate (or0 (rd (px data) 0)) (vx data) i"
    using calculateFromVxVy_spec[of data] i' by blast
  then show "px (getCompleteTrajectoryData data velocity) ! i
           = Num (seed (px data) + CONFIG_dt * (\<Sum>j<i. us ! j))"
    using i by (simp add: or0_rd_seed vx integrate_Num)
  have "py (calculateFromVxVy data) ! i = integrate (or0 (rd (py data) 0)) (vy data) i"
    using calculateFromVxVy_spec[of data] i' by blast
  then show "py (getCompleteTrajectoryData data velocity) ! i
           = Num (seed (py data) + CONFIG_dt * (\<Sum>j<i. vs ! j))"
    using i len by (simp add: or0_rd_seed vy integrate_Num)
qed

lemma velocity_mode_lengths:
  "length (px (getCompleteTrajectoryData data velocity)) = length (vx data)"
  "length (py (getCompleteTrajectoryData data velocity)) = length (vx data)"
  "length (oz (getCompleteTrajectoryData data velocity)) = length (vx data)"
  "length (wz (getCompleteTrajectoryData data velocity)) = length (vx data)"
  "vx (getCompleteTrajectoryData data velocity) = vx data"
  "vy (getCompleteTrajectoryData data velocity) = vy data"
  using calculateFromVxVy_spec[of data] by simp_all

lemma unit_speed_vx: "vx unit_speed = map Num [1, 1, 1, 1]"
  and unit_speed_vy: "vy unit_speed = map Num [0, 0, 0, 0]"
  by (simp_all add: unit_speed_def)

lemma sum_below_3: "(\<Sum>j<(3::nat). f j) = f 0 + f 1 + (f 2 :: real)"
  by (simp add: numeral_3_eq_3 numeral_2_eq_2 lessThan_Suc)

lemma round_trip_component:
  assumes px1: "\<forall>j<n. pxs ! j = Num (s + CONFIG_dt * (\<Sum>k<j. us ! k))"
    and n: "length pxs = n" and i: "Suc i < n"
  shows "finite_difference pxs n i = Num (us ! i)"
proof -
  have a: "rd pxs (int i + 1) = Num (s + CONFIG_dt * (\<Sum>k<Suc i. us ! k))"
    using px1 n i by (simp add: rd_succ)
  have b: "rd pxs (int i) = Num (s + CONFIG_dt * (\<Sum>k<i. us ! k))"
    using px1 n i by (simp add: rd_nth)
  have c: "int i < int n - 1" using i by linarith
  show ?thesis
    unfolding finite_difference_def a b using c
    by (simp add: jdiv_def jsub_def jbin_def CONFIG_dt_def field_simps)
qed

lemma round_trip_velocities:
  assumes vx: "vx data = map Num us" and vy: "vy data = map Num vs"
    and len: "length vs = length us" and i: "Suc i < length us"
    and pxd: "px d = px (getCompleteTrajectoryData data velocity)"
    and pyd: "py d = py (getCompleteTrajectoryData data velocity)"
  shows "vx (getCompleteTrajectoryData d position) ! i = Num (us ! i)"
    and "vy (getCompleteTrajectoryData d position) ! i = Num (vs ! i)"
proof -
  let ?r1 = "calculateFromVxVy data"
  have n: "length (px d) = length us" "length (py d) = length us"
    using velocity_mode_lengths(1,2)[of data] vx pxd pyd by simp_all
  have i': "i < length (px d)" using n i by simp
  have pxs: "\<forall>j<length us. px d ! j = Num (seed (px data) + CONFIG_dt * (\<Sum>k<j. us ! k))"
    using velocity_mode_positions(1)[OF vx vy len] pxd by simp
  have pys: "\<forall>j<length us. py d ! j = Num (seed (py data) + CONFIG_dt * (\<Sum>k<j. vs ! k))"
    using velocity_mode_positions(2)[OF vx vy len] pyd by simp
  have "vx (calculateFromPxPy d) ! i = finite_difference (px d) (length (px d)) i"
    using calculateFromPxPy_spec[of d] i' by blast
  then show "vx (getCompleteTrajectoryData d position) ! i = Num (us ! i)"
    using round_trip_component[OF pxs n(1) i] by (simp add: n)
  have "vy (calculateFromPxPy d) ! i = finite_difference (py d) (length (px d)) i"
    using calculateFromPxPy_spec[of d] i' by blast
  then show "vy (getCompleteTrajectoryData d position) ! i = Num (vs ! i)"
    using round_trip_component[OF pys n(2) i] by (simp add: n)
qed

section \<open>Integral and differential mode, index by index\<close>

















section \<open>The tracking error, index by index\<close>

lemma calculateOutputData_body_eq:
  assumes "i < n"
    and "length axs = n" "length ays = n" "length czs = n" "length l1s = n"
  shows "calculateOutputData_body data gtData i (axs, ays, czs, l1s) =
     (axs[i := (if 0 < i
                then jdiv (jsub (rd (vx data) (int i)) (rd (vx data) (int i - 1))) (Num CONFIG_dt)
                else axs ! i)],
      ays[i := (if 0 < i
                then jdiv (jsub (rd (vy data) (int i)) (rd (vy data) (int i - 1))) (Num CONFIG_dt)
                else ays ! i)],
      czs[i := (if jgt (jsqrt (jadd (jmul (rd (vx data) (int i)) (rd (vx data) (int i)))
                                    (jmul (rd (vy data) (int i)) (rd (vy data) (int i)))))
                       (Num (1 / 10))
                then jdiv (rd (wz data) (int i))
                       (jsqrt (jadd (jmul (rd (vx data) (int i)) (rd (vx data) (int i)))
                                    (jmul (rd (vy data) (int i)) (rd (vy data) (int i)))))
                else Num 0)],
      l1s[i := (case gtData of
                  None \<Rightarrow> l1s ! i
                | Some g \<Rightarrow>
                    (if i < length (px g)
                     then jsqrt (jadd (jmul (jsub (rd (px data) (int i)) (rd (px g) (int i)))
                                            (jsub (rd (px data) (int i)) (rd (px g) (int i))))
                                      (jmul (jsub (rd (py data) (int i)) (rd (py g) (int i)))
                                            (jsub (rd (py data) (int i)) (rd (py g) (int i)))))
                     else l1s ! i))])"
  using assms
  by (cases gtData) (simp_all add: calculateOutputData_body_def Let_def wr_update)

lemma calculateOutputData_fold:
  assumes "k \<le> n"
  shows "\<exists>axs ays czs l1s.
     fold (calculateOutputData_body data gtData) [0..<k]
       (replicate n (Num 0), replicate n (Num 0), replicate n (Num 0), replicate n (Num 0))
       = (axs, ays, czs, l1s)
     \<and> length axs = n \<and> length ays = n \<and> length czs = n \<and> length l1s = n
     \<and> (\<forall>i<k. l1s ! i =
            (case gtData of
               None \<Rightarrow> Num 0
             | Some g \<Rightarrow>
                 (if i < length (px g)
                  then jsqrt (jadd (jmul (jsub (rd (px data) (int i)) (rd (px g) (int i)))
                                         (jsub (rd (px data) (int i)) (rd (px g) (int i))))
                                   (jmul (jsub (rd (py data) (int i)) (rd (py g) (int i)))
                                         (jsub (rd (py data) (int i)) (rd (py g) (int i)))))
                  else Num 0)))
     \<and> (\<forall>i. k \<le> i \<and> i < n \<longrightarrow> l1s ! i = Num 0)"
  using assms
proof (induction k)
  case 0
  then show ?case by simp
next
  case (Suc k)
  then have kn: "k < n" and "k \<le> n" by simp_all
  with Suc.IH obtain axs ays czs l1s where
    run: "fold (calculateOutputData_body data gtData) [0..<k]
       (replicate n (Num 0), replicate n (Num 0), replicate n (Num 0), replicate n (Num 0))
       = (axs, ays, czs, l1s)"
    and len: "length axs = n" "length ays = n" "length czs = n" "length l1s = n"
    and prev: "\<forall>i<k. l1s ! i =
            (case gtData of
               None \<Rightarrow> Num 0
             | Some g \<Rightarrow>
                 (if i < length (px g)
                  then jsqrt (jadd (jmul (jsub (rd (px data) (int i)) (rd (px g) (int i)))
                                         (jsub (rd (px data) (int i)) (rd (px g) (int i))))
                                   (jmul (jsub (rd (py data) (int i)) (rd (py g) (int i)))
                                         (jsub (rd (py data) (int i)) (rd (py g) (int i)))))
                  else Num 0))"
    and rest: "\<forall>i. k \<le> i \<and> i < n \<longrightarrow> l1s ! i = Num 0"
    by blast
  have zero: "l1s ! k = Num 0" using rest kn by simp
  have step: "fold (calculateOutputData_body data gtData) [0..<Suc k]
       (replicate n (Num 0), replicate n (Num 0), replicate n (Num 0), replicate n (Num 0))
       = calculateOutputData_body data gtData k (axs, ays, czs, l1s)"
    using run by simp
  show ?case
    unfolding step calculateOutputData_body_eq[OF kn len]
    apply (intro exI conjI)
          apply (rule refl)
    using len apply simp
    using len apply simp
    using len apply simp
    using len apply simp
    using kn len prev zero
     apply (cases gtData; auto simp: nth_list_update less_Suc_eq)[1]
    using kn len rest
    apply (auto simp: nth_list_update)
    done
qed

lemma calculateOutputData_l1:
  "length (l1 (calculateOutputData data gtData)) = length (px data)"
  "i < length (px data) \<Longrightarrow>
     l1 (calculateOutputData data gtData) ! i =
       (case gtData of
          None \<Rightarrow> Num 0
        | Some g \<Rightarrow>
            (if i < length (px g)
             then jsqrt (jadd (jmul (jsub (rd (px data) (int i)) (rd (px g) (int i)))
                                    (jsub (rd (px data) (int i)) (rd (px g) (int i))))
                              (jmul (jsub (rd (py data) (int i)) (rd (py g) (int i)))
                                    (jsub (rd (py data) (int i)) (rd (py g) (int i)))))
             else Num 0))"
proof -
  obtain axs ays czs l1s where
    run: "fold (calculateOutputData_body data gtData) [0..<length (px data)]
       (replicate (length (px data)) (Num 0), replicate (length (px data)) (Num 0),
        replicate (length (px data)) (Num 0), replicate (length (px data)) (Num 0))
       = (axs, ays, czs, l1s)"
    and len: "length l1s = length (px data)"
    and nth: "\<forall>i<length (px data). l1s ! i =
            (case gtData of
               None \<Rightarrow> Num 0
             | Some g \<Rightarrow>
                 (if i < length (px g)
                  then jsqrt (jadd (jmul (jsub (rd (px data) (int i)) (rd (px g) (int i)))
                                         (jsub (rd (px data) (int i)) (rd (px g) (int i))))
                                   (jmul (jsub (rd (py data) (int i)) (rd (py g) (int i)))
                                         (jsub (rd (py data) (int i)) (rd (py g) (int i)))))
                  else Num 0))"
    using calculateOutputData_fold[of "length (px data)" "length (px data)" data gtData]
    by auto
  have r: "l1 (calculateOutputData data gtData) = l1s"
    using run by (simp add: calculateOutputData_def Let_def)
  show "length (l1 (calculateOutputData data gtData)) = length (px data)"
    using r len by simp
  show "l1 (calculateOutputData data gtData) ! i =
       (case gtData of
          None \<Rightarrow> Num 0
        | Some g \<Rightarrow>
            (if i < length (px g)
             then jsqrt (jadd (jmul (jsub (rd (px data) (int i)) (rd (px g) (int i)))
                                    (jsub (rd (px data) (int i)) (rd (px g) (int i))))
                              (jmul (jsub (rd (py data) (int i)) (rd (py g) (int i)))
                                    (jsub (rd (py data) (int i)) (rd (py g) (int i)))))
             else Num 0))" if "i < length (px data)"
    using r nth that by simp
qed

lemma distance_Num:
  "jsqrt (jadd (jmul (jsub (Num a) (Num b)) (jsub (Num a) (Num b)))
               (jmul (jsub (Num c) (Num d)) (jsub (Num c) (Num d))))
     = Num (sqrt ((a - b) * (a - b) + (c - d) * (c - d)))"
proof -
  have "\<not> (a - b) * (a - b) + (c - d) * (c - d) < 0"
    by (simp add: not_less)
  then show ?thesis
    by (simp add: jsqrt_def jadd_def jmul_def jsub_def jbin_def)
qed

lemma tracking_error_nth:
  assumes "px data = map Num xs" "py data = map Num ys" "length ys = length xs"
    and "px g = map Num gx" "py g = map Num gy" "length gy = length gx"
    and "i < length xs"
  shows "l1 (calculateOutputData data (Some g)) ! i =
           (if i < length gx
            then Num (sqrt ((xs ! i - gx ! i) * (xs ! i - gx ! i)
                            + (ys ! i - gy ! i) * (ys ! i - gy ! i)))
            else Num 0)"
proof -
  have "i < length (px data)" using assms by simp
  then show ?thesis
    using calculateOutputData_l1(2)[of i data "Some g"] assms
    by (simp add: rd_def distance_Num)
qed

lemma tracking_error_none:
  "l1 (calculateOutputData data None) = replicate (length (px data)) (Num 0)"
  using calculateOutputData_l1[where data = data and gtData = None]
  by (intro nth_equalityI) simp_all

lemma tracking_error_self:
  assumes "px data = map Num xs" "py data = map Num ys" "length ys = length xs"
  shows "l1 (calculateOutputData data (Some data)) = replicate (length xs) (Num 0)"
proof (intro nth_equalityI)
  show "length (l1 (calculateOutputData data (Some data))) = length (replicate (length xs) (Num 0))"
    using calculateOutputData_l1(1)[of data "Some data"] assms by simp
next
  fix i assume "i < length (l1 (calculateOutputData data (Some data)))"
  then have i: "i < length xs"
    using calculateOutputData_l1(1)[of data "Some data"] assms by simp
  show "l1 (calculateOutputData data (Some data)) ! i = replicate (length xs) (Num 0) ! i"
    using tracking_error_nth[OF assms assms i] i by simp
qed

lemma calculateOutputData_body_gt_cong:
  assumes "px g1 = px g2" "py g1 = py g2"
  shows "calculateOutputData_body data (Some g1) = calculateOutputData_body data (Some g2)"
proof (intro ext)
  fix i st
  show "calculateOutputData_body data (Some g1) i st = calculateOutputData_body data (Some g2) i st"
    unfolding calculateOutputData_body_def option.case assms by (rule refl)
qed

section \<open>The store after a synchronisation\<close>

lemma getInput_setInput:
  "getInput (setInput d key xs) k = (if k = key then xs else getInput d k)"
  by (cases key; cases k) simp_all

lemma getOutput_setOutput:
  "getOutput (setOutput d key xs) k = (if k = key then xs else getOutput d k)"
  by (cases key; cases k) simp_all

lemma InputData_eqI:
  fixes a b :: InputData
  assumes "\<And>k. getInput a k = getInput b k"
  shows "a = b"
proof -
  have "px a = px b" "py a = py b" "oz a = oz b" "vx a = vx b" "vy a = vy b" "wz a = wz b"
    using assms[of K_px] assms[of K_py] assms[of K_oz] assms[of K_vx] assms[of K_vy]
      assms[of K_wz] by simp_all
  then show ?thesis by simp
qed

lemma inputKeys_all: "k \<in> set inputKeys"
  by (cases k) (simp_all add: inputKeys_def)

lemma inputDataAtom_eq: "inputDataAtom s = inputDataAtomFamily s"
  by (simp add: inputDataAtom_def)

lemma sync_fold_fields:
  fixes s :: Store and A :: "InputKey set" and c :: InputData
  defines "f \<equiv> (\<lambda>key st. if key \<notin> A then set_input key (getInput c key) st else st)"
  shows "outputDataAtomFamily (fold f ks s) = outputDataAtomFamily s"
    and "gtAtomFamily (fold f ks s) = gtAtomFamily s"
    and "methodAtom (fold f ks s) = methodAtom s"
    and "syncRuns (fold f ks s) = syncRuns s"
    and "getInput (inputDataAtomFamily (fold f ks s)) k =
           (if k \<in> set ks \<and> k \<notin> A then getInput c k else getInput (inputDataAtomFamily s) k)"
  unfolding f_def
  by (induction ks arbitrary: s) (simp_all add: set_input_def getInput_setInput)

lemma syncOutputDataAtom_fields:
  "outputDataAtomFamily (syncOutputDataAtom s) = outputDataInternalAtom s"
  "gtAtomFamily (syncOutputDataAtom s) = gtAtomFamily s"
  "methodAtom (syncOutputDataAtom s) = methodAtom s"
  "syncRuns (syncOutputDataAtom s) = Suc (syncRuns s)"
  "getInput (inputDataAtomFamily (syncOutputDataAtom s)) k =
     (if k \<in> set (METHODS_inputs (methodAtom s)) then getInput (inputDataAtomFamily s) k
      else getInput (getCompleteTrajectoryData (inputDataAtomFamily s) (methodAtom s)) k)"
  by (simp_all add: syncOutputDataAtom_def Let_def sync_fold_fields set_output_def
      inputKeys_all completeTrajectoryDataAtom_def inputDataAtom_eq)

lemma batchUpdate_input_fields:
  fixes s :: Store and key :: InputKey and updates :: "(nat \<times> jsnum) list"
  defines "written \<equiv> setInput (inputDataAtomFamily s) key
                       (apply_updates (getInput (inputDataAtomFamily s) key) updates)"
  defines "s' \<equiv> batchUpdateTimeSeriesAtom (InKey key) updates s"
  shows "methodAtom s' = methodAtom s"
    and "syncRuns s' = Suc (syncRuns s)"
    and "getInput (inputDataAtomFamily s') k =
           (if k \<in> set (METHODS_inputs (methodAtom s)) then getInput written k
            else getInput (getCompleteTrajectoryData written (methodAtom s)) k)"
  by (simp_all add: s'_def written_def syncOutputDataAtom_fields set_input_def)

lemma apply_updates_single:
  "i < length xs \<Longrightarrow> apply_updates xs [(i, v)] = xs[i := v]"
  by (simp add: apply_updates_def wr_update)

section \<open>Import: normalisation and the store afterwards\<close>

declare pad_loop.simps [simp del]

lemma pad_loop_eq:
  "pad_loop padded targetLength = padded @ replicate (targetLength - length padded) (Num 0)"
proof (induction padded targetLength rule: pad_loop.induct)
  case (1 padded targetLength)
  show ?case
  proof (cases "length padded < targetLength")
    case True
    then have "targetLength - length padded = Suc (targetLength - Suc (length padded))"
      by simp
    then show ?thesis
      using 1[OF True] True by (subst pad_loop.simps) (simp add: replicate_app_Cons_same)
  next
    case False
    then show ?thesis by (subst pad_loop.simps) simp
  qed
qed

lemma padOrTruncate_eq:
  "padOrTruncate arr targetLength =
     take targetLength arr @ replicate (targetLength - length arr) (Num 0)"
  by (simp add: padOrTruncate_def pad_loop_eq)

lemma length_padOrTruncate: "length (padOrTruncate arr targetLength) = targetLength"
  by (simp add: padOrTruncate_eq)

lemma fold_map_upd:
  assumes "distinct ks"
  shows "fold (\<lambda>key m. case d key of Some arr \<Rightarrow> m(key \<mapsto> f arr) | None \<Rightarrow> m) ks m0 k =
           (if k \<in> set ks then (case d k of Some arr \<Rightarrow> Some (f arr) | None \<Rightarrow> m0 k)
            else m0 k)"
  using assms
  by (induction ks arbitrary: m0) (auto split: option.splits)

lemma processedData_apply:
  "processedData d k = map_option (\<lambda>arr. padOrTruncate arr CONFIG_timeSteps) (d k)"
proof -
  have "distinct inputKeys" by (simp add: inputKeys_def)
  then show ?thesis
    unfolding processedData_def
    by (simp add: fold_map_upd inputKeys_all split: option.splits)
qed

lemma import_fold_fields:
  fixes s :: Store and data :: "InputKey \<rightharpoonup> jsnum list"
  defines "f \<equiv> (\<lambda>key st. case data key of Some arr \<Rightarrow> set_input key arr st | None \<Rightarrow> st)"
  assumes "distinct ks"
  shows "outputDataAtomFamily (fold f ks s) = outputDataAtomFamily s
     \<and> gtAtomFamily (fold f ks s) = gtAtomFamily s
     \<and> methodAtom (fold f ks s) = methodAtom s
     \<and> syncRuns (fold f ks s) = syncRuns s
     \<and> (\<forall>k. getInput (inputDataAtomFamily (fold f ks s)) k =
           (if k \<in> set ks then (case data k of Some arr \<Rightarrow> arr
                                  | None \<Rightarrow> getInput (inputDataAtomFamily s) k)
            else getInput (inputDataAtomFamily s) k))"
  using assms(2) unfolding f_def
  by (induction ks arbitrary: s)
     (auto simp: set_input_def getInput_setInput split: option.splits)

lemma getInput_replace_present:
  "getInput (replace_present d old) k = (case d k of Some arr \<Rightarrow> arr | None \<Rightarrow> getInput old k)"
  by (cases k) (auto simp: replace_present_def split: option.splits)

lemma import_written:
  "inputDataAtomFamily
     (fold (\<lambda>key st. case data key of Some arr \<Rightarrow> set_input key arr st | None \<Rightarrow> st)
        inputKeys s)
   = replace_present data (inputDataAtomFamily s)"
proof (rule InputData_eqI)
  fix k
  have "distinct inputKeys" by (simp add: inputKeys_def)
  then show "getInput (inputDataAtomFamily
       (fold (\<lambda>key st. case data key of Some arr \<Rightarrow> set_input key arr st | None \<Rightarrow> st)
          inputKeys s)) k
     = getInput (replace_present data (inputDataAtomFamily s)) k"
    using import_fold_fields[of inputKeys data s]
    by (simp add: inputKeys_all getInput_replace_present)
qed

lemma importTrajectoryAtom_fields:
  "methodAtom (importTrajectoryAtom data s) = methodAtom s"
  "getInput (inputDataAtomFamily (importTrajectoryAtom data s)) k =
     (if k \<in> set (METHODS_inputs (methodAtom s))
      then getInput (replace_present data (inputDataAtomFamily s)) k
      else getInput (getCompleteTrajectoryData (replace_present data (inputDataAtomFamily s))
                       (methodAtom s)) k)"
proof -
  have "distinct inputKeys" by (simp add: inputKeys_def)
  then have m: "methodAtom
     (fold (\<lambda>key st. case data key of Some arr \<Rightarrow> set_input key arr st | None \<Rightarrow> st)
        inputKeys s) = methodAtom s"
    using import_fold_fields[of inputKeys data s] by simp
  show "methodAtom (importTrajectoryAtom data s) = methodAtom s"
    by (simp add: importTrajectoryAtom_def syncOutputDataAtom_fields m)
  show "getInput (inputDataAtomFamily (importTrajectoryAtom data s)) k =
     (if k \<in> set (METHODS_inputs (methodAtom s))
      then getInput (replace_present data (inputDataAtomFamily s)) k
      else getInput (getCompleteTrajectoryData (replace_present data (inputDataAtomFamily s))
                       (methodAtom s)) k)"
    by (simp add: importTrajectoryAtom_def syncOutputDataAtom_fields m import_written)
qed

lemma validateImportData_Object:
  "validateImportData (Object d) = (\<exists>k. d k \<noteq> None)"
proof -
  have "(\<exists>k \<in> set inputKeys. d k \<noteq> None) = (\<exists>k. d k \<noteq> None)"
    using inputKeys_all by blast
  then show ?thesis by (simp add: list_ex_iff)
qed

lemma importData_rejected:
  "\<not> validateImportData doc \<Longrightarrow> importData doc s = s"
  by (simp add: importData_def)

lemma importData_accepted:
  assumes "d present \<noteq> None"
  shows "getInput (inputDataAtomFamily (importData (Object d) s)) k =
     (if k \<in> set (METHODS_inputs (methodAtom s))
      then getInput (replace_present (processedData d) (inputDataAtomFamily s)) k
      else getInput (getCompleteTrajectoryData
                       (replace_present (processedData d) (inputDataAtomFamily s))
                       (methodAtom s)) k)"
proof -
  have "validateImportData (Object d)"
    using assms validateImportData_Object by blast
  then show ?thesis
    by (simp add: importData_def importTrajectoryAtom_fields)
qed

lemma resting_import_vx:
  assumes px: "(case d K_px of Some arr \<Rightarrow> padOrTruncate arr CONFIG_timeSteps
                | None \<Rightarrow> replicate 33 (Num 0)) = map Num xs"
    and py: "d K_py = None" and some: "d key \<noteq> None" and xs: "2 \<le> length xs"
  shows "getInput (inputDataAtomFamily (importData (Object d) resting_store)) K_vx ! 0
           = Num (difference_quotient xs 0)"
proof -
  let ?w = "replace_present (processedData d) (inputDataAtomFamily resting_store)"
  have a: "px ?w = map Num xs"
    using px by (simp add: replace_present_def processedData_apply resting_store_def
        split: option.splits)
  have b: "py ?w = map Num (replicate (length xs) 0)"
  proof -
    have "length (map Num xs) = 33"
      using px[symmetric]
      by (simp add: length_padOrTruncate CONFIG_timeSteps_def split: option.splits)
    then show ?thesis
      using py by (simp add: replace_present_def processedData_apply resting_store_def)
  qed
  have "0 < length xs" using xs by linarith
  then have "vx (getCompleteTrajectoryData ?w position) ! 0 = Num (difference_quotient xs 0)"
    using position_mode_nth(1)[OF a b _ xs, of 0] by simp
  then show ?thesis
    using importData_accepted[of d key resting_store K_vx] some
    by (simp add: resting_store_def)
qed

section \<open>The range of the orientation signal\<close>




section \<open>Velocity mode and back\<close>

text \<open>
  C2. Deriving in velocity mode and re-deriving, in position mode, from the positions that
  result gives back \<open>vx[i]\<close> and \<open>vy[i]\<close> exactly, in real arithmetic, at every index
  before the last. Position mode is given a state \<open>d\<close> of which only \<open>px\<close> and \<open>py\<close> are
  those of the velocity-mode output: whatever \<open>d\<close> holds as velocities, heading and yaw
  rate, the velocities come back from the positions alone.
\<close>

theorem velocity_position_round_trip_interior:
  assumes "vx data = map Num us" and "vy data = map Num vs"
    and "length vs = length us" and "2 \<le> length us" and "i < length us - 1"
    and "px d = px (getCompleteTrajectoryData data velocity)"
    and "py d = py (getCompleteTrajectoryData data velocity)"
  shows "vx (getCompleteTrajectoryData d position) ! i = vx data ! i
     \<and> vy (getCompleteTrajectoryData d position) ! i = vy data ! i"
proof -
  have i: "Suc i < length us" using assms(5) by linarith
  show ?thesis
    using round_trip_velocities[OF assms(1,2,3) i assms(6,7)] assms(1,2,3) i by simp
qed

theorem velocity_position_round_trip_interior_witness:
  "vx (getCompleteTrajectoryData positions_only position) ! 2 = Num 1
   \<and> vy (getCompleteTrajectoryData positions_only position) ! 2 = Num 0
   \<and> vx positions_only = []"
  using velocity_position_round_trip_interior[OF unit_speed_vx unit_speed_vy,
      where d = positions_only and i = 2]
  by (simp add: positions_only_def) (simp add: unit_speed_def)

section \<open>Velocity mode: the integrated positions\<close>

text \<open>
  C3. In velocity mode the positions are the running sums of the velocities:
  \<open>px[i] = x0 + dt * (vx[0] + \<dots> + vx[i - 1])\<close> and likewise for \<open>py\<close>, at every index, so that
  \<open>px[0] = x0\<close>; the seed \<open>x0\<close> is the prior \<open>px[0]\<close> when there is one, and \<open>0\<close> otherwise.
\<close>

theorem velocity_mode_running_sums:
  assumes "vx data = map Num us" and "vy data = map Num vs"
    and "length vs = length us" and "i < length us"
  shows "px (getCompleteTrajectoryData data velocity) ! i
           = Num (seed (px data) + CONFIG_dt * (\<Sum>j<i. us ! j))
     \<and> py (getCompleteTrajectoryData data velocity) ! i
           = Num (seed (py data) + CONFIG_dt * (\<Sum>j<i. vs ! j))"
  using velocity_mode_positions[OF assms] by simp

theorem velocity_mode_running_sums_witness:
  "px (getCompleteTrajectoryData unit_speed velocity) ! 3 = Num (3 / 10)
   \<and> py (getCompleteTrajectoryData unit_speed velocity) ! 3 = Num 0
   \<and> px (getCompleteTrajectoryData unit_speed velocity) ! 0 = Num 0"
proof -
  have s: "seed (px unit_speed) = 0" "seed (py unit_speed) = 0"
    by (simp_all add: unit_speed_def seed_def)
  show ?thesis
    using velocity_mode_running_sums[OF unit_speed_vx unit_speed_vy, of 3]
      velocity_mode_running_sums[OF unit_speed_vx unit_speed_vy, of 0]
    by (simp add: s sum_below_3 CONFIG_dt_def)
qed

section \<open>Position mode: the derived signals\<close>

text \<open>
  C4, as amended. In position mode, for \<open>px\<close> and \<open>py\<close> of length \<open>N \<ge> 2\<close> and every index
  \<open>i\<close>: \<open>vx[i]\<close> and \<open>vy[i]\<close> are the forward difference quotient, the backward one at the
  final index; \<open>oz[i]\<close> is \<open>atan2 (vy[i], vx[i])\<close> when the speed exceeds \<open>0.01\<close> and
  otherwise \<open>oz[i - 1]\<close> (\<open>0\<close> at \<open>i = 0\<close>); \<open>wz[0] = 0\<close>, and for \<open>i > 0\<close> \<open>wz[i]\<close> is
  the difference \<open>oz[i] - oz[i - 1]\<close>, adjusted by one full turn into the closed interval
  from \<open>-pi\<close> to \<open>pi\<close>, divided by the time step. The adjusted difference is \<open>-pi\<close> only
  when the difference itself is \<open>-pi\<close>, which the loops leave as it is.
\<close>

theorem position_mode_signals:
  assumes "px data = map Num xs" and "py data = map Num ys"
    and "length ys = length xs" and "2 \<le> length xs" and "i < length xs"
  shows "vx (getCompleteTrajectoryData data position) ! i = Num (difference_quotient xs i)
     \<and> vy (getCompleteTrajectoryData data position) ! i = Num (difference_quotient ys i)
     \<and> oz (getCompleteTrajectoryData data position) ! i =
         (if 1 / 100 < sqrt (difference_quotient xs i * difference_quotient xs i
                             + difference_quotient ys i * difference_quotient ys i)
          then Num (atan2 (difference_quotient ys i) (difference_quotient xs i))
          else if 0 < i then oz (getCompleteTrajectoryData data position) ! (i - 1)
          else Num 0)
     \<and> (if 0 < i
         then \<exists>\<theta> \<theta>'. oz (getCompleteTrajectoryData data position) ! i = Num \<theta>
                \<and> oz (getCompleteTrajectoryData data position) ! (i - 1) = Num \<theta>'
                \<and> wz (getCompleteTrajectoryData data position) ! i
                     = Num (wrap_closed (\<theta> - \<theta>') / CONFIG_dt)
                \<and> - pi \<le> wrap_closed (\<theta> - \<theta>') \<and> wrap_closed (\<theta> - \<theta>') \<le> pi
                \<and> (\<theta> - \<theta>' = - pi \<or> - pi < wrap_closed (\<theta> - \<theta>'))
         else wz (getCompleteTrajectoryData data position) ! i = Num 0)"
  using position_mode_nth[OF assms] by (cases "0 < i") simp_all

lemma reversing_path_px: "px reversing_path = map Num [0, - (1 / 10), 0]"
  and reversing_path_py: "py reversing_path = map Num [0, 0, 0]"
  by (simp_all add: reversing_path_def)

lemma reversing_path_dq:
  "difference_quotient [0, - (1 / 10), 0] 0 = - 1"
  "difference_quotient [0, - (1 / 10), 0] (Suc 0) = 1"
  "difference_quotient [0, - (1 / 10), 0] 2 = 1"
  "difference_quotient [0, 0, 0] 0 = 0"
  "difference_quotient [0, 0, 0] (Suc 0) = 0"
  "difference_quotient [0, 0, 0] 2 = 0"
  by (simp_all add: difference_quotient_def CONFIG_dt_def)

theorem position_mode_signals_witness:
  "vx (getCompleteTrajectoryData reversing_path position) ! 2 = Num 1
   \<and> vy (getCompleteTrajectoryData reversing_path position) ! 2 = Num 0
   \<and> oz (getCompleteTrajectoryData reversing_path position) ! 2 = Num 0"
  using position_mode_signals[OF reversing_path_px reversing_path_py, of 2]
  by (simp add: reversing_path_dq atan2_def)

theorem yaw_rate_half_open_counterexample:
  "oz (getCompleteTrajectoryData reversing_path position) ! 0 = Num pi
   \<and> oz (getCompleteTrajectoryData reversing_path position) ! 1 = Num 0
   \<and> wz (getCompleteTrajectoryData reversing_path position) ! 1 = Num (- pi / CONFIG_dt)
   \<and> wz (getCompleteTrajectoryData reversing_path position) ! 1 \<noteq> Num (pi / CONFIG_dt)"
proof -
  have o0: "oz (getCompleteTrajectoryData reversing_path position) ! 0 = Num pi"
    using position_mode_nth(3)[OF reversing_path_px reversing_path_py, of 0]
    by (simp add: reversing_path_dq atan2_def)
  have o1: "oz (getCompleteTrajectoryData reversing_path position) ! 1 = Num 0"
    using position_mode_nth(3)[OF reversing_path_px reversing_path_py, of 1]
    by (simp add: reversing_path_dq atan2_def)
  have "wz (getCompleteTrajectoryData reversing_path position) ! 1
          = Num (wrap_closed (0 - pi) / CONFIG_dt)"
    using position_mode_nth(4)[OF reversing_path_px reversing_path_py, of 1] o0 o1
    by auto
  then have w: "wz (getCompleteTrajectoryData reversing_path position) ! 1 = Num (- pi / CONFIG_dt)"
    by (simp add: wrap_closed_def)
  have "- pi / CONFIG_dt \<noteq> pi / CONFIG_dt"
    by (simp add: CONFIG_dt_def)
  then show ?thesis using o0 o1 w by simp
qed

section \<open>Ownership of the driving signals\<close>

text \<open>
  C5. After a batch (or point) update of a signal that the active method names as driving,
  which ends with the synchronisation: the edited buffer holds the former values with the
  updates applied, the other driving buffer is as it was, and each of the four other input
  buffers holds the signal that the derivation engine computes from the buffers as written.
  A further synchronisation leaves both driving buffers as they are.
\<close>

theorem driving_signals_kept:
  fixes s :: Store and key :: InputKey and updates :: "(nat \<times> jsnum) list"
  defines "written \<equiv> setInput (inputDataAtomFamily s) key
                       (apply_updates (getInput (inputDataAtomFamily s) key) updates)"
  defines "s' \<equiv> batchUpdateTimeSeriesAtom (InKey key) updates s"
  assumes "key \<in> set (METHODS_inputs (methodAtom s))"
  shows "getInput (inputDataAtomFamily s') key
           = apply_updates (getInput (inputDataAtomFamily s) key) updates
     \<and> (\<forall>k \<in> set (METHODS_inputs (methodAtom s)).
           k \<noteq> key \<longrightarrow> getInput (inputDataAtomFamily s') k = getInput (inputDataAtomFamily s) k)
     \<and> (\<forall>k. k \<notin> set (METHODS_inputs (methodAtom s)) \<longrightarrow>
           getInput (inputDataAtomFamily s') k
             = getInput (getCompleteTrajectoryData written (methodAtom s)) k)
     \<and> (\<forall>k \<in> set (METHODS_inputs (methodAtom s)).
           getInput (inputDataAtomFamily (syncOutputDataAtom s')) k
             = getInput (inputDataAtomFamily s') k)"
proof -
  note f = batchUpdate_input_fields[where s = s and key = key and updates = updates, folded written_def s'_def]
  have a: "getInput (inputDataAtomFamily s') key
           = apply_updates (getInput (inputDataAtomFamily s) key) updates"
    using f(3)[of key] assms(3) by (simp add: written_def getInput_setInput)
  have b: "\<forall>k \<in> set (METHODS_inputs (methodAtom s)).
           k \<noteq> key \<longrightarrow> getInput (inputDataAtomFamily s') k = getInput (inputDataAtomFamily s) k"
    using f(3) by (simp add: written_def getInput_setInput)
  have c: "\<forall>k. k \<notin> set (METHODS_inputs (methodAtom s)) \<longrightarrow>
           getInput (inputDataAtomFamily s') k
             = getInput (getCompleteTrajectoryData written (methodAtom s)) k"
    using f(3) by simp
  have d: "\<forall>k \<in> set (METHODS_inputs (methodAtom s)).
           getInput (inputDataAtomFamily (syncOutputDataAtom s')) k
             = getInput (inputDataAtomFamily s') k"
    by (simp add: syncOutputDataAtom_fields f(1))
  show ?thesis using a b c d by blast
qed

theorem driving_signals_kept_witness:
  "getInput (inputDataAtomFamily
       (batchUpdateTimeSeriesAtom (InKey K_px) [(1, Num 2)] resting_store)) K_px
     = (replicate 33 (Num 0))[1 := Num 2]
   \<and> getInput (inputDataAtomFamily
       (batchUpdateTimeSeriesAtom (InKey K_px) [(1, Num 2)] resting_store)) K_py
     = replicate 33 (Num 0)"
  using driving_signals_kept[where s = resting_store and key = K_px and updates = "[(1, Num 2)]"]
  by (simp add: resting_store_def apply_updates_single)

section \<open>When the synchronisation runs\<close>

text \<open>
  C6. A batch update of a metric signal (\<open>ax\<close>, \<open>ay\<close>, \<open>cz\<close> or \<open>l1\<close>) writes that one
  buffer and nothing else: the synchronisation does not run. A batch update of an input
  signal runs it once, and one call of the synchronisation is one run: its own writes do
  not start it again.
\<close>

theorem output_writes_do_not_sync:
  "batchUpdateTimeSeriesAtom (OutKey okey) updates s
     = s\<lparr>outputDataAtomFamily :=
           setOutput (outputDataAtomFamily s) okey
             (apply_updates (getOutput (outputDataAtomFamily s) okey) updates)\<rparr>
   \<and> syncRuns (batchUpdateTimeSeriesAtom (OutKey okey) updates s) = syncRuns s
   \<and> inputDataAtomFamily (batchUpdateTimeSeriesAtom (OutKey okey) updates s)
       = inputDataAtomFamily s
   \<and> syncRuns (batchUpdateTimeSeriesAtom (InKey ikey) updates s) = Suc (syncRuns s)
   \<and> syncRuns (syncOutputDataAtom s) = Suc (syncRuns s)"
proof -
  have out: "batchUpdateTimeSeriesAtom (OutKey okey) updates s
     = s\<lparr>outputDataAtomFamily :=
           setOutput (outputDataAtomFamily s) okey
             (apply_updates (getOutput (outputDataAtomFamily s) okey) updates)\<rparr>"
    by (simp add: set_output_def)
  have runs_out: "syncRuns (batchUpdateTimeSeriesAtom (OutKey okey) updates s) = syncRuns s"
    and inputs_out: "inputDataAtomFamily (batchUpdateTimeSeriesAtom (OutKey okey) updates s)
       = inputDataAtomFamily s"
    unfolding out by simp_all
  have runs_in: "syncRuns (batchUpdateTimeSeriesAtom (InKey ikey) updates s) = Suc (syncRuns s)"
    by (simp add: syncOutputDataAtom_fields(4) set_input_def)
  have once: "syncRuns (syncOutputDataAtom s) = Suc (syncRuns s)"
    by (rule syncOutputDataAtom_fields(4))
  show ?thesis
    using out runs_out inputs_out runs_in once by blast
qed

theorem output_writes_do_not_sync_witness:
  "syncRuns (batchUpdateTimeSeriesAtom (OutKey K_l1) [(0, Num 1)] resting_store) = 0
   \<and> inputDataAtomFamily (batchUpdateTimeSeriesAtom (OutKey K_l1) [(0, Num 1)] resting_store)
       = inputDataAtomFamily resting_store
   \<and> syncRuns (batchUpdateTimeSeriesAtom (InKey K_px) [(0, Num 1)] resting_store) = 1"
  using output_writes_do_not_sync[where s = resting_store and okey = K_l1 and ikey = K_px
      and updates = "[(0, Num 1)]"]
  by (simp add: resting_store_def)

section \<open>Import of a document\<close>

text \<open>
  C7, as amended. A document that is not an object, or that holds none of the six arrays,
  is rejected and the store is left as it is. Otherwise every array the document holds is
  cut to its first \<open>CONFIG.timeSteps\<close> values or filled with zeros at the tail up to that
  length and written to its signal, the other signals being kept; then the synchronisation
  runs. So, afterwards, a driving signal of the active method holds its normalised array
  when the document has one and its former content when not, and each of the four other
  signals holds what the derivation engine computes from the buffers as written, whether
  the document held an array for it or not.
\<close>

theorem import_document:
  "(\<not> validateImportData doc \<longrightarrow> importData doc s = s)
   \<and> \<not> validateImportData NotObject
   \<and> validateImportData (Object d) = (\<exists>k. d k \<noteq> None)
   \<and> padOrTruncate arr CONFIG_timeSteps
       = take CONFIG_timeSteps arr @ replicate (CONFIG_timeSteps - length arr) (Num 0)
   \<and> (\<forall>k. getInput (replace_present (processedData d) (inputDataAtomFamily s)) k =
          (case d k of Some arr \<Rightarrow> padOrTruncate arr CONFIG_timeSteps
                     | None \<Rightarrow> getInput (inputDataAtomFamily s) k))
   \<and> ((\<exists>k. d k \<noteq> None) \<longrightarrow>
        (\<forall>k. getInput (inputDataAtomFamily (importData (Object d) s)) k =
           (if k \<in> set (METHODS_inputs (methodAtom s))
            then (case d k of Some arr \<Rightarrow> padOrTruncate arr CONFIG_timeSteps
                            | None \<Rightarrow> getInput (inputDataAtomFamily s) k)
            else getInput (getCompleteTrajectoryData
                             (replace_present (processedData d) (inputDataAtomFamily s))
                             (methodAtom s)) k)))"
proof -
  have w: "getInput (replace_present (processedData d) (inputDataAtomFamily s)) k =
          (case d k of Some arr \<Rightarrow> padOrTruncate arr CONFIG_timeSteps
                     | None \<Rightarrow> getInput (inputDataAtomFamily s) k)" for k
    by (simp add: getInput_replace_present processedData_apply split: option.splits)
  have acc: "getInput (inputDataAtomFamily (importData (Object d) s)) k =
           (if k \<in> set (METHODS_inputs (methodAtom s))
            then (case d k of Some arr \<Rightarrow> padOrTruncate arr CONFIG_timeSteps
                            | None \<Rightarrow> getInput (inputDataAtomFamily s) k)
            else getInput (getCompleteTrajectoryData
                             (replace_present (processedData d) (inputDataAtomFamily s))
                             (methodAtom s)) k)" if ex: "\<exists>k. d k \<noteq> None" for k
  proof -
    obtain key where "d key \<noteq> None" using ex by blast
    then show ?thesis
      using importData_accepted[of d key s k] w[of k] by simp
  qed
  show ?thesis
    using importData_rejected[of doc s] validateImportData_Object[of d]
      padOrTruncate_eq[of arr CONFIG_timeSteps] w acc
    by simp
qed

theorem import_document_witness:
  "getInput (inputDataAtomFamily
      (importData (Object [K_px \<mapsto> [Num 1]]) resting_store)) K_px
     = Num 1 # replicate 32 (Num 0)
   \<and> getInput (inputDataAtomFamily
      (importData (Object [K_px \<mapsto> [Num 1]]) resting_store)) K_py
     = replicate 33 (Num 0)
   \<and> importData (Object Map.empty) resting_store = resting_store"
proof -
  have p: "padOrTruncate [Num 1] CONFIG_timeSteps = Num 1 # replicate 32 (Num 0)"
    by (simp add: padOrTruncate_eq CONFIG_timeSteps_def)
  have v: "\<not> validateImportData (Object Map.empty)"
    by (simp add: inputKeys_def)
  have ex: "\<exists>k. [K_px \<mapsto> [Num 1]] k \<noteq> None"
    by (rule exI[of _ K_px]) simp
  note T = import_document[where doc = "Object Map.empty" and s = resting_store
        and d = "[K_px \<mapsto> [Num 1]]" and arr = "[Num 1]"]
  from T v have rej: "importData (Object Map.empty) resting_store = resting_store"
    by blast
  from T ex have
    acc: "\<forall>k. getInput (inputDataAtomFamily
                (importData (Object [K_px \<mapsto> [Num 1]]) resting_store)) k =
           (if k \<in> set (METHODS_inputs (methodAtom resting_store))
            then (case [K_px \<mapsto> [Num 1]] k of
                    Some arr \<Rightarrow> padOrTruncate arr CONFIG_timeSteps
                  | None \<Rightarrow> getInput (inputDataAtomFamily resting_store) k)
            else getInput (getCompleteTrajectoryData
                             (replace_present (processedData [K_px \<mapsto> [Num 1]])
                                (inputDataAtomFamily resting_store))
                             (methodAtom resting_store)) k)"
    by blast
  have m: "methodAtom resting_store = position"
    by (simp add: resting_store_def)
  have a: "getInput (inputDataAtomFamily
      (importData (Object [K_px \<mapsto> [Num 1]]) resting_store)) K_px
     = Num 1 # replicate 32 (Num 0)"
    using acc[rule_format, of K_px] p by (simp add: m)
  have b: "getInput (inputDataAtomFamily
      (importData (Object [K_px \<mapsto> [Num 1]]) resting_store)) K_py
     = replicate 33 (Num 0)"
    using acc[rule_format, of K_py] by (simp add: m) (simp add: resting_store_def)
  show ?thesis using a b rej by simp
qed

theorem import_replaces_counterexample:
  "getInput (inputDataAtomFamily
      (importData (Object [K_vx \<mapsto> [Num 1]]) resting_store)) K_vx ! 0 = Num 0
   \<and> padOrTruncate [Num 1] CONFIG_timeSteps ! 0 = Num 1
   \<and> getInput (inputDataAtomFamily
      (importData (Object [K_px \<mapsto> [Num 1]]) resting_store)) K_vx ! 0 = Num (- 10)
   \<and> getInput (inputDataAtomFamily resting_store) K_vx ! 0 = Num 0"
proof -
  have a: "getInput (inputDataAtomFamily
      (importData (Object [K_vx \<mapsto> [Num 1]]) resting_store)) K_vx ! 0
        = Num (difference_quotient (replicate 33 0) 0)"
    by (rule resting_import_vx[where key = K_vx]) simp_all
  have b: "padOrTruncate [Num 1] CONFIG_timeSteps ! 0 = Num 1"
    by (simp add: padOrTruncate_eq CONFIG_timeSteps_def)
  have c: "getInput (inputDataAtomFamily
      (importData (Object [K_px \<mapsto> [Num 1]]) resting_store)) K_vx ! 0
        = Num (difference_quotient (1 # replicate 32 0) 0)"
    by (rule resting_import_vx[where key = K_px])
       (simp_all add: padOrTruncate_eq CONFIG_timeSteps_def)
  have d: "getInput (inputDataAtomFamily resting_store) K_vx ! 0 = Num 0"
    by (simp add: resting_store_def)
  have e: "difference_quotient (replicate 33 0) 0 = 0"
    "difference_quotient (1 # replicate 32 0) 0 = - 10"
    by (simp_all add: difference_quotient_def CONFIG_dt_def)
  show ?thesis using a b c d e by simp
qed

section \<open>The tracking error\<close>

text \<open>
  C8. The tracking error \<open>l1\<close> of the metrics engine, for a state and a ground truth whose
  positions are number sequences: without a ground truth it is all zeros; with the state
  itself as ground truth it is all zeros; with a ground truth \<open>g\<close> it is, at every index
  below the length of \<open>g\<close>, the Euclidean distance between the two positions, and \<open>0\<close> at
  every index from that length on.
\<close>

theorem tracking_error_signal:
  assumes "px data = map Num xs" and "py data = map Num ys" and "length ys = length xs"
    and "px g = map Num gx" and "py g = map Num gy" and "length gy = length gx"
  shows "l1 (calculateOutputData data None) = replicate (length xs) (Num 0)
     \<and> l1 (calculateOutputData data (Some data)) = replicate (length xs) (Num 0)
     \<and> length (l1 (calculateOutputData data (Some g))) = length xs
     \<and> (\<forall>i<length xs.
           l1 (calculateOutputData data (Some g)) ! i =
             (if i < length gx
              then Num (sqrt ((xs ! i - gx ! i) * (xs ! i - gx ! i)
                              + (ys ! i - gy ! i) * (ys ! i - gy ! i)))
              else Num 0))"
proof (intro conjI allI impI)
  show "l1 (calculateOutputData data None) = replicate (length xs) (Num 0)"
    using tracking_error_none[of data] assms(1) by simp
  show "l1 (calculateOutputData data (Some data)) = replicate (length xs) (Num 0)"
    by (rule tracking_error_self[OF assms(1,2,3)])
  show "length (l1 (calculateOutputData data (Some g))) = length xs"
    using calculateOutputData_l1(1)[of data "Some g"] assms(1) by simp
next
  fix i assume "i < length xs"
  then show "l1 (calculateOutputData data (Some g)) ! i =
             (if i < length gx
              then Num (sqrt ((xs ! i - gx ! i) * (xs ! i - gx ! i)
                              + (ys ! i - gy ! i) * (ys ! i - gy ! i)))
              else Num 0)"
    by (rule tracking_error_nth[OF assms])
qed

theorem tracking_error_signal_witness:
  "l1 (calculateOutputData unit_speed None) = [Num 0, Num 0, Num 0, Num 0]
   \<and> l1 (calculateOutputData unit_speed (Some unit_speed)) = [Num 0, Num 0, Num 0, Num 0]
   \<and> l1 (calculateOutputData unit_speed (Some short_truth)) ! 0 = Num 1
   \<and> l1 (calculateOutputData unit_speed (Some short_truth)) ! 3 = Num 0"
proof -
  have u: "px unit_speed = map Num [0, 0, 0, 0]" "py unit_speed = map Num [0, 0, 0, 0]"
    by (simp_all add: unit_speed_def)
  have g: "px short_truth = map Num [1, 0]" "py short_truth = map Num [0, 0]"
    by (simp_all add: short_truth_def)
  show ?thesis
    using tracking_error_signal[OF u _ g]
    by (simp add: numeral_3_eq_3)
qed

section \<open>What the metrics read of the ground truth\<close>

text \<open>
  C9. The metrics read a ground truth through its positions only: two ground truths with
  the same \<open>px\<close> and \<open>py\<close> give the same four metric signals, whatever their other
  four signals are.
\<close>

theorem ground_truth_noninterference:
  assumes "px g1 = px g2" and "py g1 = py g2"
  shows "calculateOutputData data (Some g1) = calculateOutputData data (Some g2)"
  unfolding calculateOutputData_def calculateOutputData_body_gt_cong[OF assms]
  by (rule refl)

theorem ground_truth_noninterference_witness:
  "calculateOutputData unit_speed (Some short_truth)
     = calculateOutputData unit_speed (Some short_truth_turning)
   \<and> oz short_truth \<noteq> oz short_truth_turning"
  using ground_truth_noninterference[of short_truth short_truth_turning unit_speed]
  by (simp add: short_truth_def short_truth_turning_def)

end
